theory Spec2Isabelle
  imports Main "HOL-Library.Word" "HOL-Library.Monad_Syntax"
begin

unbundle bit_operations_syntax

section \<open>Bytes, buffers and the archive cursor\<close>

type_synonym byte = "8 word"
type_synonym bytes = "byte list"

text \<open>Little-endian value of a run of bytes (the result of a typed read).\<close>

fun le_nat :: "bytes \<Rightarrow> nat" where
  "le_nat [] = 0"
| "le_nat (b # bs) = unat b + 256 * le_nat bs"

text \<open>Exceptions of the JavaScript runtime that the modelled code can raise.\<close>

datatype js_error = TypeError | RangeError | ZlibError

text \<open>
  Modelled from the spec: the class \<open>FArchive\<close> (\<open>objects/misc/FArchive.ts\<close>) is not
  among the sources. The spec calls it the low-level cursor abstraction used to read and
  seek typed values from a byte buffer: a buffer and a position, \<open>tell\<close> and \<open>size\<close>,
  \<open>seek\<close> and \<open>skip\<close> that move the position without reading, and typed reads that
  consume 1, 4, 8 or \<open>n\<close> bytes at the position (integers little-endian). A read that
  would pass the end of the buffer raises (here: \<open>None\<close>, a \<open>RangeError\<close>).
\<close>

record FArchive =
  ar_data :: bytes
  ar_pos :: nat

definition tell :: "FArchive \<Rightarrow> nat" where
  "tell ar = ar_pos ar"

definition size_ar :: "FArchive \<Rightarrow> nat" where
  "size_ar ar = length (ar_data ar)"

definition seek :: "nat \<Rightarrow> FArchive \<Rightarrow> FArchive" where
  "seek p ar = ar\<lparr>ar_pos := p\<rparr>"

definition skip :: "nat \<Rightarrow> FArchive \<Rightarrow> FArchive" where
  "skip n ar = ar\<lparr>ar_pos := ar_pos ar + n\<rparr>"

definition read :: "nat \<Rightarrow> FArchive \<Rightarrow> (bytes \<times> FArchive) option" where
  "read n ar =
     (if ar_pos ar + n \<le> length (ar_data ar)
      then Some (take n (drop (ar_pos ar) (ar_data ar)), ar\<lparr>ar_pos := ar_pos ar + n\<rparr>)
      else None)"

definition readUInt8 :: "FArchive \<Rightarrow> (byte \<times> FArchive) option" where
  "readUInt8 ar = (case read 1 ar of None \<Rightarrow> None | Some (bs, ar') \<Rightarrow> Some (hd bs, ar'))"

definition readUInt32 :: "FArchive \<Rightarrow> (nat \<times> FArchive) option" where
  "readUInt32 ar = (case read 4 ar of None \<Rightarrow> None | Some (bs, ar') \<Rightarrow> Some (le_nat bs, ar'))"

definition readUInt64 :: "FArchive \<Rightarrow> (nat \<times> FArchive) option" where
  "readUInt64 ar = (case read 8 ar of None \<Rightarrow> None | Some (bs, ar') \<Rightarrow> Some (le_nat bs, ar'))"

section \<open>Identifiers, digests and enumerations\<close>

text \<open>
  Modelled from the spec: \<open>FGuid\<close> (\<open>objects/misc/FGuid.ts\<close>) is not among the sources.
  The spec gives a GUID as an opaque 128-bit identifier, 16 bytes on the wire, valid
  exactly when it is non-zero; \<open>new FGuid()\<close> is the zero GUID and \<open>new FGuid(ar)\<close>
  reads four 32-bit components.
\<close>

record FGuid =
  guid_A :: nat
  guid_B :: nat
  guid_C :: nat
  guid_D :: nat

definition FGuid_zero :: FGuid where
  "FGuid_zero = \<lparr>guid_A = 0, guid_B = 0, guid_C = 0, guid_D = 0\<rparr>"

definition FGuid_read :: "FArchive \<Rightarrow> (FGuid \<times> FArchive) option" where
  "FGuid_read ar = do {
     (a, ar) \<leftarrow> readUInt32 ar;
     (b, ar) \<leftarrow> readUInt32 ar;
     (c, ar) \<leftarrow> readUInt32 ar;
     (d, ar) \<leftarrow> readUInt32 ar;
     Some (\<lparr>guid_A = a, guid_B = b, guid_C = c, guid_D = d\<rparr>, ar)
   }"

definition isValid :: "FGuid \<Rightarrow> bool" where
  "isValid g = (g \<noteq> FGuid_zero)"

text \<open>
  Modelled from the spec: \<open>FSHAHash\<close> (\<open>objects/misc/FSHAHash.ts\<close>) is not among the
  sources. The spec gives the digest as 20 bytes on the wire; \<open>new FSHAHash()\<close> is the
  zero digest and \<open>new FSHAHash(ar)\<close> reads \<open>FSHAHash.SIZE = 20\<close> bytes.
\<close>

type_synonym FSHAHash = bytes

definition FSHAHash_SIZE :: nat where
  "FSHAHash_SIZE = 20"

definition FSHAHash_zero :: FSHAHash where
  "FSHAHash_zero = replicate 20 0"

definition FSHAHash_read :: "FArchive \<Rightarrow> (FSHAHash \<times> FArchive) option" where
  "FSHAHash_read ar = read FSHAHash_SIZE ar"

text \<open>\<open>EChunkHashFlags\<close>, as the source declares it.\<close>

definition EChunkHashFlags_None :: byte where
  "EChunkHashFlags_None = 0x00"

definition RollingPoly64 :: byte where
  "RollingPoly64 = 0x01"

definition Sha1 :: byte where
  "Sha1 = 0x02"

text \<open>
  Modelled from the spec: \<open>EChunkVersion\<close> and \<open>ChunkHeaderVersionSizes\<close> are not among
  the sources. The spec numbers the versions from 1, introduces the digest and hash-type
  fields with version 2 and the uncompressed size with version 3, and fixes the widths of
  the wire fields: 4 + 4 + 4 + 4 + 16 + 8 + 1 = 41 bytes for the original field block,
  41 + 20 + 1 = 62 with the digest and hash type, 62 + 4 = 66 with the uncompressed size.
\<close>

definition Original :: nat where
  "Original = 1"

definition StoresShaAndHashType :: nat where
  "StoresShaAndHashType = 2"

definition StoresDataSizeUncompressed :: nat where
  "StoresDataSizeUncompressed = 3"

definition Size_Original :: nat where
  "Size_Original = 41"

definition Size_StoresShaAndHashType :: nat where
  "Size_StoresShaAndHashType = 62"

definition Size_StoresDataSizeUncompressed :: nat where
  "Size_StoresDataSizeUncompressed = 66"

text \<open>
  The remaining enumeration constants that the header code uses are declared outside the
  sources and the spec does not fix their values, so they are parameters:
  \<open>EChunkVersion.Latest\<close>, \<open>ChunkHeaderVersionSizes[EChunkVersion.Latest]\<close> and the
  three \<open>EChunkStorageFlags\<close> members.
\<close>

record enums =
  Latest :: nat
  Size_Latest :: nat
  Storage_None :: byte
  Compressed :: byte
  Encrypted :: byte

text \<open>\<open>EChunkLoadResult\<close>: the members that the sources return.\<close>

datatype EChunkLoadResult =
    Success
  | CorruptHeader
  | MissingHashInfo
  | IncorrectFileSize
  | UnsupportedStorage
  | DecompressFailure
  | HashCheckFailed

section \<open>The chunk header\<close>

definition MAGIC :: nat where
  "MAGIC = 0xB1FE3AA2"

text \<open>
  The fields of \<open>FChunkHeader\<close>. \<open>Guid\<close> and \<open>SHAHash\<close> have no initialiser in the class:
  they are \<open>undefined\<close> (\<open>None\<close>) until the constructor assigns them.
\<close>

record FChunkHeader =
  Version :: nat
  HeaderSize :: nat
  Guid :: "FGuid option"
  DataSizeCompressed :: nat
  DataSizeUncompressed :: nat
  StoredAs :: byte
  HashType :: byte
  RollingHash :: nat
  SHAHash :: "FSHAHash option"

text \<open>The field initialisers, run before the constructor body.\<close>

definition initial_header :: "enums \<Rightarrow> FChunkHeader" where
  "initial_header E =
     \<lparr>Version = Latest E, HeaderSize = Size_Latest E, Guid = None,
      DataSizeCompressed = 0, DataSizeUncompressed = 1024 * 1024,
      StoredAs = Storage_None E, HashType = RollingPoly64, RollingHash = 0,
      SHAHash = None\<rparr>"

text \<open>The values that the constructor's failure branch assigns (lines 100 to 108).\<close>

definition zeroed_header :: "enums \<Rightarrow> FChunkHeader" where
  "zeroed_header E =
     \<lparr>Version = Latest E, HeaderSize = Size_Latest E, Guid = Some FGuid_zero,
      DataSizeCompressed = 0, DataSizeUncompressed = 1024 * 1024,
      StoredAs = Storage_None E, HashType = RollingPoly64, RollingHash = 0,
      SHAHash = Some FSHAHash_zero\<rparr>"

text \<open>Lines 49 to 60: the original field block; returns the magic that was read.\<close>

definition read_original ::
  "FChunkHeader \<Rightarrow> FArchive \<Rightarrow> bool \<Rightarrow> (nat \<times> FChunkHeader \<times> FArchive) option" where
  "read_original h ar lazy = do {
     (magic, ar) \<leftarrow> readUInt32 ar;
     (v, ar) \<leftarrow> readUInt32 ar;
     (hs, ar) \<leftarrow> readUInt32 ar;
     (dsc, ar) \<leftarrow> readUInt32 ar;
     (g, ar) \<leftarrow> FGuid_read ar;
     (rh, ar) \<leftarrow> (if lazy then Some (RollingHash h, skip 8 ar) else readUInt64 ar);
     (st, ar) \<leftarrow> readUInt8 ar;
     Some (magic,
           h\<lparr>Version := v, HeaderSize := hs, DataSizeCompressed := dsc, Guid := Some g,
             RollingHash := rh, StoredAs := st\<rparr>,
           ar)
   }"

text \<open>Lines 66 to 79: the digest and the hash type, from version 2.\<close>

definition read_sha_and_hash_type ::
  "int \<Rightarrow> bool \<Rightarrow> (bool \<times> nat \<times> FChunkHeader \<times> FArchive) \<Rightarrow>
   (bool \<times> nat \<times> FChunkHeader \<times> FArchive) option" where
  "read_sha_and_hash_type sizeLeft lazy s =
     (case s of (bSuccess, expectedBytes, h, ar) \<Rightarrow>
        if bSuccess \<and> Version h \<ge> StoresShaAndHashType then
          (let bSuccess = (sizeLeft \<ge> int Size_StoresShaAndHashType) in
           if bSuccess then
             (if lazy then
                Some (bSuccess, Size_StoresShaAndHashType, h, skip 1 (skip FSHAHash_SIZE ar))
              else do {
                (sha, ar) \<leftarrow> FSHAHash_read ar;
                (ht, ar) \<leftarrow> readUInt8 ar;
                Some (bSuccess, Size_StoresShaAndHashType,
                      h\<lparr>SHAHash := Some sha, HashType := ht\<rparr>, ar)
              })
           else Some (bSuccess, Size_StoresShaAndHashType, h, ar))
        else Some s)"

text \<open>Lines 82 to 88: the uncompressed size, from version 3.\<close>

definition read_data_size_uncompressed ::
  "int \<Rightarrow> (bool \<times> nat \<times> FChunkHeader \<times> FArchive) \<Rightarrow>
   (bool \<times> nat \<times> FChunkHeader \<times> FArchive) option" where
  "read_data_size_uncompressed sizeLeft s =
     (case s of (bSuccess, expectedBytes, h, ar) \<Rightarrow>
        if bSuccess \<and> Version h \<ge> StoresDataSizeUncompressed then
          (let bSuccess = (sizeLeft \<ge> int Size_StoresDataSizeUncompressed) in
           if bSuccess then do {
             (dsu, ar) \<leftarrow> readUInt32 ar;
             Some (bSuccess, Size_StoresDataSizeUncompressed,
                   h\<lparr>DataSizeUncompressed := dsu\<rparr>, ar)
           }
           else Some (bSuccess, Size_StoresDataSizeUncompressed, h, ar))
        else Some s)"

text \<open>
  Lines 42 to 93 of the constructor: the reads, up to the final value of \<open>bSuccess\<close>.
  The result is \<open>None\<close> when a read raises.
\<close>

definition FChunkHeader_decode ::
  "enums \<Rightarrow> FArchive \<Rightarrow> bool \<Rightarrow> (bool \<times> FChunkHeader \<times> FArchive) option" where
  "FChunkHeader_decode E ar lazy =
     (let startPos = tell ar;
          sizeLeft = int (size_ar ar) - int startPos;
          h = initial_header E
      in
        if sizeLeft \<ge> int Size_Original then do {
          (magic, h, ar) \<leftarrow> read_original h ar lazy;
          s \<leftarrow> read_sha_and_hash_type sizeLeft lazy (magic = MAGIC, Size_Original, h, ar);
          (bSuccess, expectedBytes, h, ar) \<leftarrow> read_data_size_uncompressed sizeLeft s;
          Some (bSuccess \<and> int (tell ar) - int startPos = int expectedBytes, h, ar)
        }
        else Some (False, h, ar))"

text \<open>
  The constructor \<open>new FChunkHeader(ar, lazy)\<close>: the header and the archive as it leaves
  them; \<open>None\<close> when a read raises.
\<close>

definition FChunkHeader_new ::
  "enums \<Rightarrow> FArchive \<Rightarrow> bool \<Rightarrow> (FChunkHeader \<times> FArchive) option" where
  "FChunkHeader_new E ar lazy =
     (case FChunkHeader_decode E ar lazy of
        None \<Rightarrow> None
      | Some (bSuccess, h, ar') \<Rightarrow>
          if bSuccess then Some (h, seek (tell ar + HeaderSize h) ar')
          else Some (zeroed_header E, ar'))"

section \<open>Loading the payload\<close>

text \<open>
  The collaborators that the sources call and do not define, as parameters: the rolling
  hash (\<open>FRollingHash.GetHashForDataSet\<close>), \<open>toHex\<close> of \<open>HexUtils\<close>, the upper-case
  hexadecimal SHA-1 digest of Node's \<open>crypto\<close>, \<open>FSHAHash.toString\<close>, \<open>zlib.inflateSync\<close>
  (\<open>None\<close> when it raises) and \<open>path.join\<close>.
\<close>

record externals =
  GetHashForDataSet :: "bytes \<Rightarrow> nat"
  toHex :: "nat \<Rightarrow> string"
  sha1_hex_upper :: "bytes \<Rightarrow> string"
  SHAHash_toString :: "FSHAHash \<Rightarrow> string"
  inflateSync :: "bytes \<Rightarrow> bytes option"
  join :: "string \<Rightarrow> string \<Rightarrow> string"

text \<open>
  Node's \<open>Buffer.alloc(n)\<close> is \<open>n\<close> zero bytes. \<open>source.copy(target, targetStart,
  sourceStart, sourceEnd)\<close> on non-negative integers: it raises a \<open>RangeError\<close> when
  \<open>sourceStart\<close> is beyond the source's length, copies nothing when the target start is
  out of the target or the range is empty, and otherwise copies as many bytes as the
  range, the target and the source all have.
\<close>

definition Buffer_alloc :: "nat \<Rightarrow> bytes" where
  "Buffer_alloc n = replicate n 0"

definition Buffer_copy :: "bytes \<Rightarrow> bytes \<Rightarrow> nat \<Rightarrow> nat \<Rightarrow> nat \<Rightarrow> bytes option" where
  "Buffer_copy source target targetStart sourceStart sourceEnd =
     (if sourceStart > length source then None
      else if targetStart \<ge> length target \<or> sourceStart \<ge> sourceEnd then Some target
      else
        (let nb = min (min (sourceEnd - sourceStart) (length target - targetStart))
                      (length source - sourceStart)
         in Some (take targetStart target @ take nb (drop sourceStart source) @
                  drop (targetStart + nb) target)))"

text \<open>The hash computations that a call dispatches, each with the bytes it ran over.\<close>

datatype hash_check = RollingOver bytes | ShaOver bytes

text \<open>
  Lines 113 to 133 of \<open>load\<close>: the early returns, the read and the decompression. The
  result is an exception, an early return value, or the final payload buffer, with the
  archive as it is left.
\<close>

definition load_payload ::
  "externals \<Rightarrow> enums \<Rightarrow> FChunkHeader \<Rightarrow> FArchive \<Rightarrow> bool \<Rightarrow>
   (js_error + (EChunkLoadResult + bytes)) \<times> FArchive" where
  "load_payload X E h ar lazy =
     (case Guid h of
        None \<Rightarrow> (Inl TypeError, ar)
      | Some g \<Rightarrow>
          if \<not> isValid g then (Inr (Inl CorruptHeader), ar)
          else if \<not> lazy \<and> HashType h = EChunkHashFlags_None then (Inr (Inl MissingHashInfo), ar)
          else
            (let startPos = tell ar;
                 sizeLeft = int (size_ar ar) - int startPos
             in
               if int (DataSizeCompressed h) > sizeLeft then (Inr (Inl IncorrectFileSize), ar)
               else if StoredAs h AND Encrypted E = Encrypted E
                 then (Inr (Inl UnsupportedStorage), ar)
               else
                 (case read (DataSizeCompressed h) ar of
                    None \<Rightarrow> (Inl RangeError, ar)
                  | Some (buf, ar') \<Rightarrow>
                      if StoredAs h AND Compressed E = Compressed E then
                        (case inflateSync X buf of
                           None \<Rightarrow> (Inl ZlibError, ar')
                         | Some inflated \<Rightarrow>
                             if length inflated \<noteq> DataSizeUncompressed h
                             then (Inr (Inl DecompressFailure), ar')
                             else
                               (case Buffer_copy inflated
                                       (Buffer_alloc (DataSizeUncompressed h)) 0 0
                                       (length inflated) of
                                  None \<Rightarrow> (Inl RangeError, ar')
                                | Some buf' \<Rightarrow> (Inr (Inr buf'), ar')))
                      else (Inr (Inr buf), ar'))))"

text \<open>
  Lines 136 to 146 of \<open>load\<close>: the verification of the final payload buffer, with the
  hash computations it dispatched, in order.
\<close>

definition load_verify ::
  "externals \<Rightarrow> FChunkHeader \<Rightarrow> bytes \<Rightarrow> bool \<Rightarrow>
   (js_error + (EChunkLoadResult \<times> bytes option)) \<times> hash_check list" where
  "load_verify X h buf lazy =
     (if \<not> lazy then
        (let rolling = (HashType h AND RollingPoly64 = RollingPoly64);
             c1 = (if rolling then [RollingOver buf] else [])
         in
           if rolling \<and> toHex X (GetHashForDataSet X buf) \<noteq> toHex X (RollingHash h)
           then (Inr (HashCheckFailed, None), c1)
           else if HashType h AND Sha1 = Sha1 then
             (case SHAHash h of
                None \<Rightarrow> (Inl TypeError, c1 @ [ShaOver buf])
              | Some s \<Rightarrow>
                  if sha1_hex_upper X buf \<noteq> SHAHash_toString X s
                  then (Inr (HashCheckFailed, None), c1 @ [ShaOver buf])
                  else (Inr (Success, Some buf), c1 @ [ShaOver buf]))
           else (Inr (Success, Some buf), c1))
      else (Inr (Success, Some buf), []))"

text \<open>
  \<open>FChunkHeader.load\<close>: what it returns or raises, the archive as it leaves it and the
  hash computations it dispatched.
\<close>

record load_out =
  outcome :: "js_error + (EChunkLoadResult \<times> bytes option)"
  ar_after :: FArchive
  checks :: "hash_check list"

definition load ::
  "externals \<Rightarrow> enums \<Rightarrow> FChunkHeader \<Rightarrow> FArchive \<Rightarrow> bool \<Rightarrow> load_out" where
  "load X E h ar lazy =
     (case load_payload X E h ar lazy of
        (Inl e, ar') \<Rightarrow> \<lparr>outcome = Inl e, ar_after = ar', checks = []\<rparr>
      | (Inr (Inl r), ar') \<Rightarrow> \<lparr>outcome = Inr (r, None), ar_after = ar', checks = []\<rparr>
      | (Inr (Inr buf), ar') \<Rightarrow>
          (case load_verify X h buf lazy of
             (out, cs) \<Rightarrow> \<lparr>outcome = out, ar_after = ar', checks = cs\<rparr>))"

section \<open>The chunk part resolver\<close>

record ManifestOptions =
  cacheDirectory :: "string option"
  opt_lazy :: bool
  chunkBaseUri :: "string option"

record FileChunkPart =
  part_Guid :: string
  Offset :: nat
  Size :: nat
  Hash :: string
  Sha :: "string option"
  DataGroup :: string
  Filename :: string
  Url :: string
  options :: ManifestOptions

text \<open>
  What \<open>loadData\<close> acts on: the regular files of the file system by path, the remote
  store (the status and body that a request for a URI gets), the requests made so far
  and the hash computations dispatched so far. Writing a file always succeeds.
\<close>

record world =
  files :: "string \<Rightarrow> bytes option"
  remote :: "string \<Rightarrow> nat \<times> bytes"
  requests :: "string list"
  hash_log :: "hash_check list"

text \<open>The errors that \<open>loadData\<close> throws, with the values its messages carry.\<close>

datatype load_error =
    HashMismatch string string string
  | ShaMismatch string string "string option"
  | MissingBaseUri
  | RequestFailed string nat
  | MagicMismatch string nat nat
  | LoadFailed string EChunkLoadResult
  | Uncaught js_error

definition endsWith_slash :: "string \<Rightarrow> bool" where
  "endsWith_slash s = (case rev s of [] \<Rightarrow> False | c # _ \<Rightarrow> c = CHR ''/'')"

text \<open>Lines 58 to 70 of \<open>loadData\<close>: a cache entry was found and read.\<close>

definition loadData_cached ::
  "externals \<Rightarrow> FileChunkPart \<Rightarrow> bytes \<Rightarrow> world \<Rightarrow> (load_error + bytes) \<times> world" where
  "loadData_cached X p cached w =
     (if \<not> opt_lazy (options p) then
        (let hash = toHex X (GetHashForDataSet X cached);
             w1 = w\<lparr>hash_log := hash_log w @ [RollingOver cached]\<rparr>
         in
           if hash \<noteq> Hash p then (Inl (HashMismatch (Filename p) hash (Hash p)), w1)
           else
             (let sha = sha1_hex_upper X cached;
                  w2 = w1\<lparr>hash_log := hash_log w1 @ [ShaOver cached]\<rparr>
              in
                if Some sha \<noteq> Sha p then (Inl (ShaMismatch (Filename p) sha (Sha p)), w2)
                else (Inr cached, w2)))
      else (Inr cached, w))"

text \<open>Lines 72 to 95 of \<open>loadData\<close>: no cache entry, the chunk is downloaded.\<close>

definition loadData_download ::
  "externals \<Rightarrow> enums \<Rightarrow> FileChunkPart \<Rightarrow> string option \<Rightarrow> world \<Rightarrow>
   (load_error + bytes) \<times> world" where
  "loadData_download X E p path w =
     (case chunkBaseUri (options p) of
        None \<Rightarrow> (Inl MissingBaseUri, w)
      | Some base \<Rightarrow>
          (let uri = base @ (if endsWith_slash base then [] else ''/'') @ Url p;
               res = remote w uri;
               w1 = w\<lparr>requests := requests w @ [uri]\<rparr>
           in
             if fst res \<noteq> 200 then (Inl (RequestFailed (Filename p) (fst res)), w1)
             else
               (case readUInt32 \<lparr>ar_data = snd res, ar_pos = 0\<rparr> of
                  None \<Rightarrow> (Inl (Uncaught RangeError), w1)
                | Some (magic, ar) \<Rightarrow>
                    if magic \<noteq> MAGIC then (Inl (MagicMismatch (Filename p) magic MAGIC), w1)
                    else
                      (case FChunkHeader_new E (seek 0 ar) (opt_lazy (options p)) of
                         None \<Rightarrow> (Inl (Uncaught RangeError), w1)
                       | Some (header, ar') \<Rightarrow>
                           (let out = load X E header ar' (opt_lazy (options p));
                                w2 = w1\<lparr>hash_log := hash_log w1 @ checks out\<rparr>
                            in
                              case outcome out of
                                Inl e \<Rightarrow> (Inl (Uncaught e), w2)
                              | Inr (status, buf) \<Rightarrow>
                                  if status \<noteq> Success
                                  then (Inl (LoadFailed (Filename p) status), w2)
                                  else
                                    (case buf of
                                       None \<Rightarrow> (Inl (Uncaught TypeError), w2)
                                     | Some payload \<Rightarrow>
                                         (Inr payload,
                                          case path of
                                            None \<Rightarrow> w2
                                          | Some q \<Rightarrow>
                                              w2\<lparr>files := (files w2)(q \<mapsto> payload)\<rparr>)))))))"

text \<open>Lines 53 to 96 of \<open>loadData\<close>: the full payload, from the cache or the network.\<close>

definition loadData_fetch ::
  "externals \<Rightarrow> enums \<Rightarrow> FileChunkPart \<Rightarrow> world \<Rightarrow> (load_error + bytes) \<times> world" where
  "loadData_fetch X E p w =
     (let path = (case cacheDirectory (options p) of
                    None \<Rightarrow> None
                  | Some dir \<Rightarrow> Some (join X dir (Filename p)))
      in
        case (case path of None \<Rightarrow> None | Some q \<Rightarrow> files w q) of
          Some cached \<Rightarrow> loadData_cached X p cached w
        | None \<Rightarrow> loadData_download X E p path w)"

text \<open>Lines 98 to 100 of \<open>loadData\<close>: the requested window of the payload.\<close>

definition loadData_slice :: "FileChunkPart \<Rightarrow> bytes \<Rightarrow> bytes option" where
  "loadData_slice p payload =
     Buffer_copy payload (Buffer_alloc (Size p)) 0 (Offset p) (Offset p + Size p)"

definition loadData ::
  "externals \<Rightarrow> enums \<Rightarrow> FileChunkPart \<Rightarrow> world \<Rightarrow> (load_error + bytes) \<times> world" where
  "loadData X E p w =
     (case loadData_fetch X E p w of
        (Inl e, w') \<Rightarrow> (Inl e, w')
      | (Inr payload, w') \<Rightarrow>
          (case loadData_slice p payload of
             None \<Rightarrow> (Inl (Uncaught RangeError), w')
           | Some result \<Rightarrow> (Inr result, w')))"

section \<open>Reading positions and example data\<close>

text \<open>The 32-bit little-endian value that lies \<open>off\<close> bytes after the cursor.\<close>

definition u32_at :: "FArchive \<Rightarrow> nat \<Rightarrow> nat" where
  "u32_at ar off = le_nat (take 4 (drop (ar_pos ar + off) (ar_data ar)))"

text \<open>
  Stand-ins for the collaborators, for evaluating the model on concrete chunks: a byte sum
  as rolling hash, two hexadecimal digits as \<open>toHex\<close>, the length as digest, a
  run-length decoder as \<open>inflateSync\<close>. The enumeration values are those of the
  Unreal chunk format.
\<close>

definition hex_digit :: "nat \<Rightarrow> char" where
  "hex_digit d = ''0123456789ABCDEF'' ! d"

definition ex_toHex :: "nat \<Rightarrow> string" where
  "ex_toHex n = [hex_digit (n div 16 mod 16), hex_digit (n mod 16)]"

fun ex_inflate :: "bytes \<Rightarrow> bytes option" where
  "ex_inflate [] = Some []"
| "ex_inflate [n] = None"
| "ex_inflate (n # b # rest) =
     (case ex_inflate rest of None \<Rightarrow> None | Some t \<Rightarrow> Some (replicate (unat n) b @ t))"

definition ex_X :: externals where
  "ex_X = \<lparr>GetHashForDataSet = (\<lambda>bs. sum_list (map unat bs)),
           toHex = ex_toHex,
           sha1_hex_upper = (\<lambda>bs. ex_toHex (length bs)),
           SHAHash_toString = (\<lambda>s. ex_toHex (le_nat (take 1 s))),
           inflateSync = ex_inflate,
           join = (\<lambda>dir name. dir @ ''/'' @ name)\<rparr>"

definition ex_E :: enums where
  "ex_E = \<lparr>Latest = 3, Size_Latest = 66, Storage_None = 0x00, Compressed = 0x01,
           Encrypted = 0x02\<rparr>"

text \<open>
  A version 3 container, 66 header bytes and the payload, with the GUID (7, 0, 0, 0) and a
  stored digest whose first byte is 3; the stored sizes, rolling hash, storage flags and
  hash type are arguments. \<open>ex_header\<close> is the header that decodes from it with
  verification enabled.
\<close>

definition ex_container :: "byte \<Rightarrow> byte \<Rightarrow> byte \<Rightarrow> byte \<Rightarrow> byte \<Rightarrow> bytes \<Rightarrow> bytes" where
  "ex_container dsc rh st ht dsu payload =
     [0xA2, 0x3A, 0xFE, 0xB1,  3, 0, 0, 0,  66, 0, 0, 0,  dsc, 0, 0, 0,
      7, 0, 0, 0,  0, 0, 0, 0,  0, 0, 0, 0,  0, 0, 0, 0,
      rh, 0, 0, 0, 0, 0, 0, 0,  st,
      3, 0, 0, 0, 0, 0, 0, 0, 0, 0, 0, 0, 0, 0, 0, 0, 0, 0, 0, 0,  ht,
      dsu, 0, 0, 0] @ payload"

definition ex_header :: "byte \<Rightarrow> byte \<Rightarrow> byte \<Rightarrow> byte \<Rightarrow> byte \<Rightarrow> FChunkHeader" where
  "ex_header dsc rh st ht dsu =
     \<lparr>Version = 3, HeaderSize = 66,
      Guid = Some \<lparr>guid_A = 7, guid_B = 0, guid_C = 0, guid_D = 0\<rparr>,
      DataSizeCompressed = unat dsc, DataSizeUncompressed = unat dsu,
      StoredAs = st, HashType = ht, RollingHash = unat rh,
      SHAHash = Some [3, 0, 0, 0, 0, 0, 0, 0, 0, 0, 0, 0, 0, 0, 0, 0, 0, 0, 0, 0]\<rparr>"

text \<open>The archive over a buffer, with the cursor at \<open>n\<close>.\<close>

definition archive_at :: "bytes \<Rightarrow> nat \<Rightarrow> FArchive" where
  "archive_at bs n = \<lparr>ar_data = bs, ar_pos = n\<rparr>"

text \<open>A chunk reference and a world, for evaluating \<open>loadData\<close>.\<close>

definition ex_part :: "nat \<Rightarrow> nat \<Rightarrow> string \<Rightarrow> bool \<Rightarrow> FileChunkPart" where
  "ex_part off sz hash lz =
     \<lparr>part_Guid = ''G'', Offset = off, Size = sz, Hash = hash,
      Sha = (if lz then None else Some ''03''), DataGroup = ''05'',
      Filename = hash @ ''_G.chunk'', Url = ''05/'' @ hash @ ''_G.chunk'',
      options = \<lparr>cacheDirectory = Some ''cache'', opt_lazy = lz,
                 chunkBaseUri = Some ''http://cdn''\<rparr>\<rparr>"

definition ex_world :: "(string \<Rightarrow> bytes option) \<Rightarrow> bytes \<Rightarrow> world" where
  "ex_world fs body = \<lparr>files = fs, remote = (\<lambda>uri. (200, body)), requests = [], hash_log = []\<rparr>"

section \<open>Auxiliary facts\<close>

subsection \<open>Reads inside the buffer\<close>

lemma readUInt32_in_range:
  "ar_pos ar + 4 \<le> length (ar_data ar) \<Longrightarrow>
   readUInt32 ar = Some (u32_at ar 0, ar\<lparr>ar_pos := ar_pos ar + 4\<rparr>)"
  by (simp add: readUInt32_def read_def u32_at_def)

lemma readUInt64_in_range:
  "ar_pos ar + 8 \<le> length (ar_data ar) \<Longrightarrow>
   readUInt64 ar = Some (le_nat (take 8 (drop (ar_pos ar) (ar_data ar))), ar\<lparr>ar_pos := ar_pos ar + 8\<rparr>)"
  by (simp add: readUInt64_def read_def)

lemma readUInt8_in_range:
  "ar_pos ar + 1 \<le> length (ar_data ar) \<Longrightarrow>
   readUInt8 ar = Some (hd (drop (ar_pos ar) (ar_data ar)), ar\<lparr>ar_pos := ar_pos ar + 1\<rparr>)"
  by (simp add: readUInt8_def read_def hd_drop_conv_nth take_Suc_conv_app_nth)

lemma FGuid_read_in_range:
  "ar_pos ar + 16 \<le> length (ar_data ar) \<Longrightarrow>
   FGuid_read ar =
     Some (\<lparr>guid_A = u32_at ar 0, guid_B = u32_at ar 4, guid_C = u32_at ar 8,
            guid_D = u32_at ar 12\<rparr>, ar\<lparr>ar_pos := ar_pos ar + 16\<rparr>)"
  by (simp add: FGuid_read_def readUInt32_in_range u32_at_def add.assoc)

lemma read_original_in_range:
  assumes "ar_pos ar + 41 \<le> length (ar_data ar)"
  shows "read_original h ar lazy =
     Some (u32_at ar 0,
           h\<lparr>Version := u32_at ar 4, HeaderSize := u32_at ar 8,
             DataSizeCompressed := u32_at ar 12,
             Guid := Some \<lparr>guid_A = u32_at ar 16, guid_B = u32_at ar 20,
                            guid_C = u32_at ar 24, guid_D = u32_at ar 28\<rparr>,
             RollingHash := (if lazy then RollingHash h
                             else le_nat (take 8 (drop (ar_pos ar + 32) (ar_data ar)))),
             StoredAs := hd (drop (ar_pos ar + 40) (ar_data ar))\<rparr>,
           ar\<lparr>ar_pos := ar_pos ar + 41\<rparr>)"
  using assms
  by (simp add: read_original_def readUInt32_in_range FGuid_read_in_range readUInt64_in_range
      readUInt8_in_range skip_def u32_at_def add.assoc)

lemma read_sha_and_hash_type_eq:
  assumes "ar_pos a = p0 + 41" and "sizeLeft = int (length (ar_data a)) - int p0"
  shows "read_sha_and_hash_type sizeLeft lazy (b, e, h, a) =
     Some (if b \<and> Version h \<ge> 2 then
             (if sizeLeft \<ge> 62 then
                (True, 62,
                 if lazy then h
                 else h\<lparr>SHAHash := Some (take 20 (drop (p0 + 41) (ar_data a))),
                        HashType := hd (drop (p0 + 61) (ar_data a))\<rparr>,
                 a\<lparr>ar_pos := p0 + 62\<rparr>)
              else (False, 62, h, a))
           else (b, e, h, a))"
  using assms
  by (simp add: read_sha_and_hash_type_def StoresShaAndHashType_def
      Size_StoresShaAndHashType_def FSHAHash_read_def FSHAHash_SIZE_def read_def
      readUInt8_in_range skip_def add.commute)

lemma read_data_size_uncompressed_eq:
  assumes "b \<and> Version h \<ge> 3 \<Longrightarrow> ar_pos a = p0 + 62"
    and "sizeLeft = int (length (ar_data a)) - int p0"
  shows "read_data_size_uncompressed sizeLeft (b, e, h, a) =
     Some (if b \<and> Version h \<ge> 3 then
             (if sizeLeft \<ge> 66 then
                (True, 66, h\<lparr>DataSizeUncompressed := le_nat (take 4 (drop (p0 + 62) (ar_data a)))\<rparr>,
                 a\<lparr>ar_pos := p0 + 66\<rparr>)
              else (False, 66, h, a))
           else (b, e, h, a))"
  using assms
  by (simp add: read_data_size_uncompressed_def StoresDataSizeUncompressed_def
      Size_StoresDataSizeUncompressed_def readUInt32_in_range u32_at_def add.commute)


lemma decode_short:
  "int (length (ar_data ar)) - int (ar_pos ar) < 41 \<Longrightarrow>
   FChunkHeader_decode E ar lazy = Some (False, initial_header E, ar)"
  by (simp add: FChunkHeader_decode_def Let_def tell_def size_ar_def Size_Original_def)

lemma decode_long:
  assumes "41 \<le> int (length (ar_data ar)) - int (ar_pos ar)"
  shows "FChunkHeader_decode E ar lazy =
     (let sizeLeft = int (length (ar_data ar)) - int (ar_pos ar);
          p0 = ar_pos ar;
          h1 = (initial_header E)\<lparr>Version := u32_at ar 4, HeaderSize := u32_at ar 8,
             DataSizeCompressed := u32_at ar 12,
             Guid := Some \<lparr>guid_A = u32_at ar 16, guid_B = u32_at ar 20,
                            guid_C = u32_at ar 24, guid_D = u32_at ar 28\<rparr>,
             RollingHash := (if lazy then 0
                             else le_nat (take 8 (drop (p0 + 32) (ar_data ar)))),
             StoredAs := hd (drop (p0 + 40) (ar_data ar))\<rparr>;
          h2 = (if lazy then h1
                else h1\<lparr>SHAHash := Some (take 20 (drop (p0 + 41) (ar_data ar))),
                        HashType := hd (drop (p0 + 61) (ar_data ar))\<rparr>);
          h3 = h2\<lparr>DataSizeUncompressed := u32_at ar 62\<rparr>
      in
        if u32_at ar 0 \<noteq> MAGIC then Some (False, h1, ar\<lparr>ar_pos := p0 + 41\<rparr>)
        else if u32_at ar 4 < 2 then Some (True, h1, ar\<lparr>ar_pos := p0 + 41\<rparr>)
        else if sizeLeft < 62 then Some (False, h1, ar\<lparr>ar_pos := p0 + 41\<rparr>)
        else if u32_at ar 4 < 3 then Some (True, h2, ar\<lparr>ar_pos := p0 + 62\<rparr>)
        else if sizeLeft < 66 then Some (False, h2, ar\<lparr>ar_pos := p0 + 62\<rparr>)
        else Some (True, h3, ar\<lparr>ar_pos := p0 + 66\<rparr>))"
proof -
  define p0 where "p0 = ar_pos ar"
  define sizeLeft where "sizeLeft = int (length (ar_data ar)) - int p0"
  define h1 where "h1 = (initial_header E)\<lparr>Version := u32_at ar 4, HeaderSize := u32_at ar 8,
             DataSizeCompressed := u32_at ar 12,
             Guid := Some \<lparr>guid_A = u32_at ar 16, guid_B = u32_at ar 20,
                            guid_C = u32_at ar 24, guid_D = u32_at ar 28\<rparr>,
             RollingHash := (if lazy then 0
                             else le_nat (take 8 (drop (p0 + 32) (ar_data ar)))),
             StoredAs := hd (drop (p0 + 40) (ar_data ar))\<rparr>"
  define h2 where "h2 = (if lazy then h1
                else h1\<lparr>SHAHash := Some (take 20 (drop (p0 + 41) (ar_data ar))),
                        HashType := hd (drop (p0 + 61) (ar_data ar))\<rparr>)"
  define h3 where "h3 = h2\<lparr>DataSizeUncompressed := u32_at ar 62\<rparr>"
  define a1 where "a1 = ar\<lparr>ar_pos := p0 + 41\<rparr>"
  define a2 where "a2 = ar\<lparr>ar_pos := p0 + 62\<rparr>"
  define a3 where "a3 = ar\<lparr>ar_pos := p0 + 66\<rparr>"
  have r: "ar_pos ar + 41 \<le> length (ar_data ar)"
    using assms by linarith
  have v1: "Version h1 = u32_at ar 4" and v2: "Version h2 = u32_at ar 4"
    by (simp_all add: h1_def h2_def)
  have pa: "ar_pos a1 = p0 + 41" "ar_pos a2 = p0 + 62" "ar_pos a3 = p0 + 66"
    "ar_data a1 = ar_data ar" "ar_data a2 = ar_data ar"
    by (simp_all add: a1_def a2_def a3_def)
  have s1: "read_original (initial_header E) ar lazy = Some (u32_at ar 0, h1, a1)"
    by (simp add: read_original_in_range [OF r] h1_def a1_def p0_def initial_header_def)
  have s2: "read_sha_and_hash_type sizeLeft lazy (b, e, h1, a1) =
     Some (if b \<and> Version h1 \<ge> 2 then
             (if sizeLeft \<ge> 62 then (True, 62, h2, a2) else (False, 62, h1, a1))
           else (b, e, h1, a1))" for b e
    using read_sha_and_hash_type_eq [of a1 p0 sizeLeft lazy b e h1]
    by (simp add: a1_def a2_def h2_def sizeLeft_def)
  have s3: "(b \<and> Version h \<ge> 3 \<longrightarrow> a = a2) \<Longrightarrow>
     ar_data a = ar_data ar \<Longrightarrow>
     read_data_size_uncompressed sizeLeft (b, e, h, a) =
     Some (if b \<and> Version h \<ge> 3 then
             (if sizeLeft \<ge> 66
              then (True, 66, h\<lparr>DataSizeUncompressed := u32_at ar 62\<rparr>, a3)
              else (False, 66, h, a))
           else (b, e, h, a))" for b e h a
    using read_data_size_uncompressed_eq [of b h a p0 sizeLeft e]
    by (auto simp: a2_def a3_def sizeLeft_def u32_at_def p0_def)
  have d: "FChunkHeader_decode E ar lazy =
     (case read_sha_and_hash_type sizeLeft lazy (u32_at ar 0 = MAGIC, 41, h1, a1) of
        None \<Rightarrow> None
      | Some s \<Rightarrow>
        (case read_data_size_uncompressed sizeLeft s of
           None \<Rightarrow> None
         | Some (bSuccess, expectedBytes, h, a) \<Rightarrow>
             Some (bSuccess \<and> int (ar_pos a) - int p0 = int expectedBytes, h, a)))"
    using assms
    by (simp add: FChunkHeader_decode_def Let_def tell_def size_ar_def Size_Original_def s1
        sizeLeft_def p0_def split: option.split prod.split)
  consider (magic) "u32_at ar 0 \<noteq> MAGIC"
    | (orig) "u32_at ar 0 = MAGIC" "u32_at ar 4 < 2"
    | (short2) "u32_at ar 0 = MAGIC" "2 \<le> u32_at ar 4" "sizeLeft < 62"
    | (two) "u32_at ar 0 = MAGIC" "2 \<le> u32_at ar 4" "62 \<le> sizeLeft" "u32_at ar 4 < 3"
    | (short3) "u32_at ar 0 = MAGIC" "3 \<le> u32_at ar 4" "62 \<le> sizeLeft" "sizeLeft < 66"
    | (three) "u32_at ar 0 = MAGIC" "3 \<le> u32_at ar 4" "66 \<le> sizeLeft"
    by linarith
  then have "FChunkHeader_decode E ar lazy =
       (if u32_at ar 0 \<noteq> MAGIC then Some (False, h1, a1)
        else if u32_at ar 4 < 2 then Some (True, h1, a1)
        else if sizeLeft < 62 then Some (False, h1, a1)
        else if u32_at ar 4 < 3 then Some (True, h2, a2)
        else if sizeLeft < 66 then Some (False, h2, a2)
        else Some (True, h3, a3))"
  proof cases
    case magic
    then show ?thesis
      by (simp add: d s2 s3 v1 pa)
  next
    case orig
    then show ?thesis
      by (simp add: d s2 s3 v1 pa)
  next
    case short2
    then show ?thesis
      by (simp add: d s2 s3 v1 pa)
  next
    case two
    then show ?thesis
      by (simp add: d s2 s3 v1 v2 pa)
  next
    case short3
    then show ?thesis
      by (simp add: d s2 s3 v1 v2 pa)
  next
    case three
    then show ?thesis
      by (simp add: d s2 s3 v1 v2 pa h3_def)
  qed
  then show ?thesis
    by (simp add: Let_def h1_def h2_def h3_def a1_def a2_def a3_def sizeLeft_def p0_def)
qed

subsection \<open>The window copy and the cache hit\<close>

lemma loadData_slice_in_range:
  assumes "Offset p \<le> length payload"
  shows "loadData_slice p payload =
     Some (take (Size p) (drop (Offset p) payload) @
           replicate (Size p - (length payload - Offset p)) 0)"
proof (cases "Size p = 0")
  case True
  then show ?thesis
    using assms by (simp add: loadData_slice_def Buffer_copy_def Buffer_alloc_def)
next
  case False
  then show ?thesis
    using assms
    by (simp add: loadData_slice_def Buffer_copy_def Buffer_alloc_def Let_def min_def)
qed

lemma loadData_slice_beyond:
  "length payload < Offset p \<Longrightarrow> loadData_slice p payload = None"
  by (simp add: loadData_slice_def Buffer_copy_def)

lemma loadData_cached_lazy:
  "opt_lazy (options p) \<Longrightarrow> loadData_cached X p cached w = (Inr cached, w)"
  by (simp add: loadData_cached_def)

lemma loadData_fetch_hit:
  assumes "cacheDirectory (options p) = Some dir"
    and "files w (join X dir (Filename p)) = Some cached"
  shows "loadData_fetch X E p w = loadData_cached X p cached w"
  using assms by (simp add: loadData_fetch_def)

lemma ex_fetch_hit_lazy:
  "loadData_fetch ex_X ex_E (ex_part off sz ''06'' True)
     (ex_world [''cache/06_G.chunk'' \<mapsto> bs] body) =
   (Inr bs, ex_world [''cache/06_G.chunk'' \<mapsto> bs] body)"
  by (simp add: loadData_fetch_hit [where dir = "''cache''" and cached = bs]
      loadData_cached_lazy ex_part_def ex_world_def ex_X_def)

subsection \<open>What the constructor decodes\<close>

lemma decode_total:
  "\<exists>bSuccess h ar'. FChunkHeader_decode E ar lazy = Some (bSuccess, h, ar')"
proof (cases "41 \<le> int (length (ar_data ar)) - int (ar_pos ar)")
  case True
  then show ?thesis
    by (auto simp: decode_long Let_def)
next
  case False
  then show ?thesis
    by (auto simp: decode_short)
qed

lemma decode_flag:
  assumes "FChunkHeader_decode E ar lazy = Some (bSuccess, h, ar')"
  shows "bSuccess \<longleftrightarrow>
     41 \<le> int (size_ar ar) - int (tell ar) \<and> u32_at ar 0 = MAGIC \<and>
     (2 \<le> u32_at ar 4 \<longrightarrow> 62 \<le> int (size_ar ar) - int (tell ar)) \<and>
     (3 \<le> u32_at ar 4 \<longrightarrow> 66 \<le> int (size_ar ar) - int (tell ar))"
proof (cases "41 \<le> int (length (ar_data ar)) - int (ar_pos ar)")
  case True
  from assms True show ?thesis
    unfolding decode_long [OF True] Let_def size_ar_def tell_def
    by (auto split: if_splits)
next
  case False
  with assms show ?thesis
    by (simp add: decode_short size_ar_def tell_def)
qed

lemma decode_success_fields:
  assumes "FChunkHeader_decode E ar lazy = Some (True, h, ar')"
  shows "HeaderSize h = u32_at ar 8 \<and> Version h = u32_at ar 4 \<and>
         DataSizeCompressed h = u32_at ar 12 \<and> Guid h \<noteq> None \<and> ar_data ar' = ar_data ar"
proof (cases "41 \<le> int (length (ar_data ar)) - int (ar_pos ar)")
  case True
  from assms show ?thesis
    unfolding decode_long [OF True] Let_def
    by (auto split: if_splits)
next
  case False
  with assms show ?thesis
    by (simp add: decode_short)
qed

lemma decode_lazy_hash_fields:
  assumes "FChunkHeader_decode E ar True = Some (bSuccess, h, ar')"
  shows "RollingHash h = 0 \<and> HashType h = RollingPoly64 \<and> SHAHash h = None"
proof (cases "41 \<le> int (length (ar_data ar)) - int (ar_pos ar)")
  case True
  from assms show ?thesis
    unfolding decode_long [OF True] Let_def
    by (auto simp: initial_header_def split: if_splits)
next
  case False
  with assms show ?thesis
    by (auto simp: decode_short initial_header_def)
qed

lemma decode_sha_defined:
  assumes "FChunkHeader_decode E ar False = Some (bSuccess, h, ar')"
    and "HashType h AND Sha1 = Sha1"
  shows "SHAHash h \<noteq> None"
proof (cases "41 \<le> int (length (ar_data ar)) - int (ar_pos ar)")
  case True
  from assms show ?thesis
    unfolding decode_long [OF True] Let_def
    by (auto simp: initial_header_def RollingPoly64_def Sha1_def split: if_splits)
next
  case False
  with assms show ?thesis
    by (auto simp: decode_short initial_header_def RollingPoly64_def Sha1_def)
qed

lemma new_total:
  "\<exists>h ar'. FChunkHeader_new E ar lazy = Some (h, ar')"
  using decode_total [of E ar lazy]
  by (auto simp: FChunkHeader_new_def)

lemma new_guid_defined:
  assumes "FChunkHeader_new E ar lazy = Some (h, ar')"
  shows "Guid h \<noteq> None"
proof -
  obtain b h0 a0 where d: "FChunkHeader_decode E ar lazy = Some (b, h0, a0)"
    using decode_total by blast
  show ?thesis
  proof (cases b)
    case True
    with d assms decode_success_fields [where E = E and ar = ar and lazy = lazy and h = h0 and ar' = a0] show ?thesis
      by (auto simp: FChunkHeader_new_def)
  next
    case False
    with d assms show ?thesis
      by (auto simp: FChunkHeader_new_def zeroed_header_def)
  qed
qed

lemma new_sha_defined:
  assumes "FChunkHeader_new E ar False = Some (h, ar')"
    and "HashType h AND Sha1 = Sha1"
  shows "SHAHash h \<noteq> None"
proof -
  obtain b h0 a0 where d: "FChunkHeader_decode E ar False = Some (b, h0, a0)"
    using decode_total by blast
  show ?thesis
  proof (cases b)
    case True
    with d assms decode_sha_defined [where E = E and ar = ar and h = h0 and ar' = a0 and bSuccess = b] show ?thesis
      by (auto simp: FChunkHeader_new_def)
  next
    case False
    with d assms show ?thesis
      by (auto simp: FChunkHeader_new_def zeroed_header_def)
  qed
qed

subsection \<open>Concrete decodes\<close>

lemmas decode_unfold =
  FChunkHeader_decode_def Let_def tell_def size_ar_def seek_def
  skip_def read_def readUInt8_def readUInt32_def readUInt64_def FGuid_read_def
  FSHAHash_read_def FSHAHash_SIZE_def read_original_def read_sha_and_hash_type_def
  read_data_size_uncompressed_def initial_header_def MAGIC_def Size_Original_def
  Size_StoresShaAndHashType_def Size_StoresDataSizeUncompressed_def
  StoresShaAndHashType_def StoresDataSizeUncompressed_def archive_at_def

lemma ex_decode:
  "FChunkHeader_decode ex_E (archive_at (ex_container dsc rh st ht dsu payload) 0) False =
     Some (True, ex_header dsc rh st ht dsu,
           archive_at (ex_container dsc rh st ht dsu payload) 66)"
  by (simp add: decode_unfold ex_E_def ex_container_def ex_header_def)

lemma ex_new:
  "FChunkHeader_new ex_E (archive_at (ex_container dsc rh st ht dsu payload) 0) False =
     Some (ex_header dsc rh st ht dsu,
           archive_at (ex_container dsc rh st ht dsu payload) 66)"
  by (simp add: FChunkHeader_new_def ex_decode)
     (simp add: ex_header_def archive_at_def seek_def tell_def)

lemma ex_decode_lazy:
  "FChunkHeader_decode ex_E (archive_at (ex_container dsc rh st ht dsu payload) 0) True =
     Some (True,
           (ex_header dsc rh st ht dsu)\<lparr>RollingHash := 0, HashType := RollingPoly64,
              SHAHash := None\<rparr>,
           archive_at (ex_container dsc rh st ht dsu payload) 66)"
  by (simp add: decode_unfold ex_E_def ex_container_def ex_header_def)

lemma ex_decode_bad_magic:
  "FChunkHeader_decode ex_E (archive_at (0xA3 # tl (ex_container dsc rh st ht dsu payload)) 0) False =
     Some (False,
           \<lparr>Version = 3, HeaderSize = 66,
            Guid = Some \<lparr>guid_A = 7, guid_B = 0, guid_C = 0, guid_D = 0\<rparr>,
            DataSizeCompressed = unat dsc, DataSizeUncompressed = 1024 * 1024,
            StoredAs = st, HashType = RollingPoly64, RollingHash = unat rh,
            SHAHash = None\<rparr>,
           archive_at (0xA3 # tl (ex_container dsc rh st ht dsu payload)) 41)"
  by (simp add: decode_unfold ex_E_def ex_container_def)

section \<open>Header decoding\<close>

text \<open>
  C3: decoding always ends, and it fails exactly when the archive holds fewer bytes than
  the smallest version needs, the magic differs, or the version announces a field block
  for which too few bytes remain (the count of consumed bytes never differs from the
  expected size on its own). Whenever it fails, the constructor leaves the header with
  every field at its default: version \<open>Latest\<close>, the header size of \<open>Latest\<close>, the zero
  GUID, compressed size 0, uncompressed size 1 MiB, storage \<open>None\<close>, hash type
  rolling-only, rolling hash 0 and the zero digest; no field keeps a value that was read.
\<close>

theorem failed_decode_resets_every_field:
  "\<exists>bSuccess h ar'.
     FChunkHeader_decode E ar lazy = Some (bSuccess, h, ar') \<and>
     (\<not> bSuccess \<longleftrightarrow>
        int (size_ar ar) - int (tell ar) < 41 \<or> u32_at ar 0 \<noteq> MAGIC \<or>
        (2 \<le> u32_at ar 4 \<and> int (size_ar ar) - int (tell ar) < 62) \<or>
        (3 \<le> u32_at ar 4 \<and> int (size_ar ar) - int (tell ar) < 66)) \<and>
     (\<not> bSuccess \<longrightarrow>
        FChunkHeader_new E ar lazy =
          Some (\<lparr>Version = Latest E, HeaderSize = Size_Latest E, Guid = Some FGuid_zero,
                 DataSizeCompressed = 0, DataSizeUncompressed = 1024 * 1024,
                 StoredAs = Storage_None E, HashType = RollingPoly64, RollingHash = 0,
                 SHAHash = Some FSHAHash_zero\<rparr>, ar'))"
proof -
  obtain bSuccess h ar' where d: "FChunkHeader_decode E ar lazy = Some (bSuccess, h, ar')"
    using decode_total by blast
  have "\<not> bSuccess \<longleftrightarrow>
        int (size_ar ar) - int (tell ar) < 41 \<or> u32_at ar 0 \<noteq> MAGIC \<or>
        (2 \<le> u32_at ar 4 \<and> int (size_ar ar) - int (tell ar) < 62) \<or>
        (3 \<le> u32_at ar 4 \<and> int (size_ar ar) - int (tell ar) < 66)"
    unfolding decode_flag [OF d] by linarith
  moreover have "\<not> bSuccess \<longrightarrow>
      FChunkHeader_new E ar lazy = Some (zeroed_header E, ar')"
    by (simp add: FChunkHeader_new_def d)
  ultimately show ?thesis
    unfolding zeroed_header_def using d by blast
qed

theorem failed_decode_resets_every_field_witness:
  "FChunkHeader_decode ex_E (archive_at (0xA3 # tl (ex_container 3 6 0 3 3 [1, 2, 3])) 0) False =
     Some (False,
           \<lparr>Version = 3, HeaderSize = 66,
            Guid = Some \<lparr>guid_A = 7, guid_B = 0, guid_C = 0, guid_D = 0\<rparr>,
            DataSizeCompressed = 3, DataSizeUncompressed = 1024 * 1024,
            StoredAs = 0, HashType = RollingPoly64, RollingHash = 6,
            SHAHash = None\<rparr>,
           archive_at (0xA3 # tl (ex_container 3 6 0 3 3 [1, 2, 3])) 41) \<and>
   u32_at (archive_at (0xA3 # tl (ex_container 3 6 0 3 3 [1, 2, 3])) 0) 0 \<noteq> MAGIC \<and>
   FChunkHeader_new ex_E (archive_at (0xA3 # tl (ex_container 3 6 0 3 3 [1, 2, 3])) 0) False =
     Some (\<lparr>Version = 3, HeaderSize = 66, Guid = Some FGuid_zero,
            DataSizeCompressed = 0, DataSizeUncompressed = 1024 * 1024,
            StoredAs = 0, HashType = RollingPoly64, RollingHash = 0,
            SHAHash = Some FSHAHash_zero\<rparr>,
           archive_at (0xA3 # tl (ex_container 3 6 0 3 3 [1, 2, 3])) 41)"
proof -
  let ?ar = "archive_at (0xA3 # tl (ex_container 3 6 0 3 3 [1, 2, 3])) 0"
  have d: "FChunkHeader_decode ex_E ?ar False =
     Some (False,
           \<lparr>Version = 3, HeaderSize = 66,
            Guid = Some \<lparr>guid_A = 7, guid_B = 0, guid_C = 0, guid_D = 0\<rparr>,
            DataSizeCompressed = 3, DataSizeUncompressed = 1024 * 1024,
            StoredAs = 0, HashType = RollingPoly64, RollingHash = 6,
            SHAHash = None\<rparr>,
           archive_at (0xA3 # tl (ex_container 3 6 0 3 3 [1, 2, 3])) 41)"
    using ex_decode_bad_magic [of 3 6 0 3 3 "[1, 2, 3]"] by simp
  have m: "u32_at ?ar 0 \<noteq> MAGIC"
    by (simp add: u32_at_def archive_at_def ex_container_def MAGIC_def)
  obtain b h a where o: "FChunkHeader_decode ex_E ?ar False = Some (b, h, a)"
    and n: "\<not> b \<longrightarrow> FChunkHeader_new ex_E ?ar False =
          Some (\<lparr>Version = Latest ex_E, HeaderSize = Size_Latest ex_E, Guid = Some FGuid_zero,
                 DataSizeCompressed = 0, DataSizeUncompressed = 1024 * 1024,
                 StoredAs = Storage_None ex_E, HashType = RollingPoly64, RollingHash = 0,
                 SHAHash = Some FSHAHash_zero\<rparr>, a)"
    using failed_decode_resets_every_field [of ex_E ?ar False] by blast
  from o d have "\<not> b" and "a = archive_at (0xA3 # tl (ex_container 3 6 0 3 3 [1, 2, 3])) 41"
    by simp_all
  with n have "FChunkHeader_new ex_E ?ar False =
     Some (\<lparr>Version = 3, HeaderSize = 66, Guid = Some FGuid_zero,
            DataSizeCompressed = 0, DataSizeUncompressed = 1024 * 1024,
            StoredAs = 0, HashType = RollingPoly64, RollingHash = 0,
            SHAHash = Some FSHAHash_zero\<rparr>,
           archive_at (0xA3 # tl (ex_container 3 6 0 3 3 [1, 2, 3])) 41)"
    by (simp add: ex_E_def)
  with d m show ?thesis
    by simp
qed

text \<open>
  C5: after every successful decode, whichever version-gated fields were read or skipped,
  the constructor leaves the cursor at the position where the decode started plus the
  decoded \<open>HeaderSize\<close>, the 32-bit value at offset 8 of the header.
\<close>

theorem successful_decode_leaves_cursor_at_header_size:
  assumes "FChunkHeader_decode E ar lazy = Some (True, h, ar')"
  shows "\<exists>ar''. FChunkHeader_new E ar lazy = Some (h, ar'') \<and>
           tell ar'' = tell ar + HeaderSize h \<and>
           HeaderSize h = u32_at ar 8 \<and>
           ar_data ar'' = ar_data ar"
  using assms decode_success_fields [OF assms]
  by (simp add: FChunkHeader_new_def seek_def tell_def)

theorem successful_decode_leaves_cursor_at_header_size_witness:
  "FChunkHeader_decode ex_E (archive_at (ex_container 3 6 0 3 3 [1, 2, 3]) 0) True =
     Some (True,
           (ex_header 3 6 0 3 3)\<lparr>RollingHash := 0, HashType := RollingPoly64, SHAHash := None\<rparr>,
           archive_at (ex_container 3 6 0 3 3 [1, 2, 3]) 66) \<and>
   FChunkHeader_new ex_E (archive_at (ex_container 3 6 0 3 3 [1, 2, 3]) 0) True =
     Some ((ex_header 3 6 0 3 3)\<lparr>RollingHash := 0, HashType := RollingPoly64, SHAHash := None\<rparr>,
           archive_at (ex_container 3 6 0 3 3 [1, 2, 3]) 66)"
proof -
  have d: "FChunkHeader_decode ex_E (archive_at (ex_container 3 6 0 3 3 [1, 2, 3]) 0) True =
     Some (True,
           (ex_header 3 6 0 3 3)\<lparr>RollingHash := 0, HashType := RollingPoly64, SHAHash := None\<rparr>,
           archive_at (ex_container 3 6 0 3 3 [1, 2, 3]) 66)"
    by (rule ex_decode_lazy)
  show ?thesis
    using successful_decode_leaves_cursor_at_header_size [OF d] d
    by (auto simp: archive_at_def tell_def ex_header_def)
qed

section \<open>Loading\<close>

lemma read_in_range:
  "int n \<le> int (size_ar ar) - int (tell ar) \<Longrightarrow>
   read n ar = Some (take n (drop (ar_pos ar) (ar_data ar)), ar\<lparr>ar_pos := ar_pos ar + n\<rparr>)"
  by (simp add: read_def size_ar_def tell_def)

lemma Buffer_copy_whole:
  "length src = n \<Longrightarrow> length src = m \<Longrightarrow>
   Buffer_copy src (Buffer_alloc n) 0 0 m = Some src"
  by (cases "src = []") (auto simp: Buffer_copy_def Buffer_alloc_def)

text \<open>The payload stage once the four early returns are passed.\<close>

lemma load_payload_past_checks:
  assumes "Guid h = Some g" and "isValid g"
    and "lazy \<or> HashType h \<noteq> EChunkHashFlags_None"
    and "int (DataSizeCompressed h) \<le> int (size_ar ar) - int (tell ar)"
    and "StoredAs h AND Encrypted E \<noteq> Encrypted E"
  shows "load_payload X E h ar lazy =
     (let buf = take (DataSizeCompressed h) (drop (ar_pos ar) (ar_data ar));
          ar' = ar\<lparr>ar_pos := ar_pos ar + DataSizeCompressed h\<rparr>
      in
        if StoredAs h AND Compressed E = Compressed E then
          (case inflateSync X buf of
             None \<Rightarrow> (Inl ZlibError, ar')
           | Some inflated \<Rightarrow>
               if length inflated \<noteq> DataSizeUncompressed h
               then (Inr (Inl DecompressFailure), ar')
               else (Inr (Inr inflated), ar'))
        else (Inr (Inr buf), ar'))"
  using assms
  by (auto simp: load_payload_def Let_def read_in_range Buffer_copy_whole
      split: option.split)

lemma load_payload_final_length:
  assumes "load_payload X E h ar lazy = (Inr (Inr buf), ar')"
  shows "length buf =
     (if StoredAs h AND Compressed E = Compressed E then DataSizeUncompressed h
      else DataSizeCompressed h)"
proof -
  from assms obtain g where g: "Guid h = Some g"
    by (cases "Guid h") (simp_all add: load_payload_def)
  from assms g have c: "isValid g" "lazy \<or> HashType h \<noteq> EChunkHashFlags_None"
    "int (DataSizeCompressed h) \<le> int (size_ar ar) - int (tell ar)"
    "StoredAs h AND Encrypted E \<noteq> Encrypted E"
    by (auto simp: load_payload_def Let_def split: if_splits)
  from c(3) have "DataSizeCompressed h \<le> length (ar_data ar) - ar_pos ar"
    by (simp add: size_ar_def tell_def)
  with assms show ?thesis
    unfolding load_payload_past_checks [OF g c] Let_def
    by (auto split: if_splits option.splits)
qed

lemma load_verify_success_buf:
  "load_verify X h buf lazy = (Inr (Success, b), cs) \<Longrightarrow> b = Some buf"
  by (auto simp: load_verify_def Let_def split: if_splits option.splits)

lemma load_success_payload:
  assumes "outcome (load X E h ar lazy) = Inr (Success, b)"
  shows "\<exists>buf ar'. load_payload X E h ar lazy = (Inr (Inr buf), ar') \<and> b = Some buf"
proof (cases "load_payload X E h ar lazy")
  case (Pair r ar')
  show ?thesis
  proof (cases r)
    case (Inl e)
    with Pair assms show ?thesis
      by (simp add: load_def)
  next
    case (Inr v)
    show ?thesis
    proof (cases v)
      case (Inl res)
      with Inr Pair assms have "res = Success"
        by (simp add: load_def)
      with Inl Inr Pair show ?thesis
        by (auto simp: load_payload_def Let_def split: option.splits if_splits)
    next
      case (Inr buf)
      with \<open>r = Inr v\<close> Pair assms show ?thesis
        by (auto simp: load_def split: prod.splits dest: load_verify_success_buf)
    qed
  qed
qed

lemma load_verify_codes:
  "load_verify X h buf lazy = (Inr (r, b), cs) \<Longrightarrow> r = HashCheckFailed \<or> r = Success"
  by (auto simp: load_verify_def Let_def split: if_splits option.splits)

lemmas load_unfold =
  load_def load_payload_def load_verify_def Let_def isValid_def FGuid_zero_def
  EChunkHashFlags_None_def RollingPoly64_def Sha1_def size_ar_def tell_def read_def
  Buffer_copy_def Buffer_alloc_def archive_at_def

lemmas ex_unfold =
  ex_X_def ex_E_def ex_header_def ex_container_def ex_toHex_def hex_digit_def

text \<open>
  C4: \<open>load\<close> decides its result in order, the first match winning: \<open>CorruptHeader\<close>
  when the GUID is the zero GUID; else \<open>MissingHashInfo\<close> when verification is enabled
  and the hash type is \<open>None\<close>; else \<open>IncorrectFileSize\<close> when \<open>DataSizeCompressed\<close>
  exceeds the bytes that remain; else \<open>UnsupportedStorage\<close> when the encrypted flag is
  set. In each of these four cases the archive is left as it was, so no payload byte has
  been read. Only when all four checks pass does \<open>load\<close> read, and then exactly
  \<open>DataSizeCompressed\<close> bytes, and none of the four results can follow.
\<close>

theorem load_result_taxonomy:
  assumes "Guid h = Some g"
  shows
    "(\<not> isValid g \<longrightarrow>
        load X E h ar lazy =
          \<lparr>outcome = Inr (CorruptHeader, None), ar_after = ar, checks = []\<rparr>) \<and>
     (isValid g \<and> \<not> lazy \<and> HashType h = EChunkHashFlags_None \<longrightarrow>
        load X E h ar lazy =
          \<lparr>outcome = Inr (MissingHashInfo, None), ar_after = ar, checks = []\<rparr>) \<and>
     (isValid g \<and> (lazy \<or> HashType h \<noteq> EChunkHashFlags_None) \<and>
      int (DataSizeCompressed h) > int (size_ar ar) - int (tell ar) \<longrightarrow>
        load X E h ar lazy =
          \<lparr>outcome = Inr (IncorrectFileSize, None), ar_after = ar, checks = []\<rparr>) \<and>
     (isValid g \<and> (lazy \<or> HashType h \<noteq> EChunkHashFlags_None) \<and>
      int (DataSizeCompressed h) \<le> int (size_ar ar) - int (tell ar) \<and>
      StoredAs h AND Encrypted E = Encrypted E \<longrightarrow>
        load X E h ar lazy =
          \<lparr>outcome = Inr (UnsupportedStorage, None), ar_after = ar, checks = []\<rparr>) \<and>
     (isValid g \<and> (lazy \<or> HashType h \<noteq> EChunkHashFlags_None) \<and>
      int (DataSizeCompressed h) \<le> int (size_ar ar) - int (tell ar) \<and>
      StoredAs h AND Encrypted E \<noteq> Encrypted E \<longrightarrow>
        read (DataSizeCompressed h) ar =
          Some (take (DataSizeCompressed h) (drop (tell ar) (ar_data ar)),
                ar_after (load X E h ar lazy)) \<and>
        tell (ar_after (load X E h ar lazy)) = tell ar + DataSizeCompressed h \<and>
        (\<forall>r b. outcome (load X E h ar lazy) = Inr (r, b) \<longrightarrow>
           r = DecompressFailure \<or> r = HashCheckFailed \<or> r = Success))"
proof -
  have early: "\<not> isValid g \<longrightarrow>
        load X E h ar lazy =
          \<lparr>outcome = Inr (CorruptHeader, None), ar_after = ar, checks = []\<rparr>"
    "isValid g \<and> \<not> lazy \<and> HashType h = EChunkHashFlags_None \<longrightarrow>
        load X E h ar lazy =
          \<lparr>outcome = Inr (MissingHashInfo, None), ar_after = ar, checks = []\<rparr>"
    "isValid g \<and> (lazy \<or> HashType h \<noteq> EChunkHashFlags_None) \<and>
      int (DataSizeCompressed h) > int (size_ar ar) - int (tell ar) \<longrightarrow>
        load X E h ar lazy =
          \<lparr>outcome = Inr (IncorrectFileSize, None), ar_after = ar, checks = []\<rparr>"
    "isValid g \<and> (lazy \<or> HashType h \<noteq> EChunkHashFlags_None) \<and>
      int (DataSizeCompressed h) \<le> int (size_ar ar) - int (tell ar) \<and>
      StoredAs h AND Encrypted E = Encrypted E \<longrightarrow>
        load X E h ar lazy =
          \<lparr>outcome = Inr (UnsupportedStorage, None), ar_after = ar, checks = []\<rparr>"
    using assms by (auto simp: load_def load_payload_def Let_def)
  have late: "read (DataSizeCompressed h) ar =
          Some (take (DataSizeCompressed h) (drop (tell ar) (ar_data ar)),
                ar_after (load X E h ar lazy)) \<and>
        tell (ar_after (load X E h ar lazy)) = tell ar + DataSizeCompressed h \<and>
        (\<forall>r b. outcome (load X E h ar lazy) = Inr (r, b) \<longrightarrow>
           r = DecompressFailure \<or> r = HashCheckFailed \<or> r = Success)"
    if c: "isValid g" "lazy \<or> HashType h \<noteq> EChunkHashFlags_None"
      "int (DataSizeCompressed h) \<le> int (size_ar ar) - int (tell ar)"
      "StoredAs h AND Encrypted E \<noteq> Encrypted E"
  proof -
    let ?ar' = "ar\<lparr>ar_pos := ar_pos ar + DataSizeCompressed h\<rparr>"
    note p = load_payload_past_checks [OF assms c, of X]
    have a: "ar_after (load X E h ar lazy) = ?ar'"
      unfolding load_def p Let_def
      by (simp split: option.split prod.split)
    have r: "read (DataSizeCompressed h) ar =
        Some (take (DataSizeCompressed h) (drop (tell ar) (ar_data ar)), ?ar')"
      using c(3) by (simp add: read_in_range tell_def)
    have o: "r = DecompressFailure \<or> r = HashCheckFailed \<or> r = Success"
      if "outcome (load X E h ar lazy) = Inr (r, b)" for r b
      using that unfolding load_def p Let_def
      by (auto split: option.splits prod.splits if_splits dest: load_verify_codes)
    from a r o show ?thesis
      by (simp add: tell_def)
  qed
  from early late show ?thesis
    by blast
qed

theorem load_result_taxonomy_witness:
  "Guid (ex_header 9 6 0 3 3) = Some \<lparr>guid_A = 7, guid_B = 0, guid_C = 0, guid_D = 0\<rparr> \<and>
   isValid \<lparr>guid_A = 7, guid_B = 0, guid_C = 0, guid_D = 0\<rparr> \<and>
   HashType (ex_header 9 6 0 3 3) \<noteq> EChunkHashFlags_None \<and>
   int (DataSizeCompressed (ex_header 9 6 0 3 3)) >
     int (size_ar (archive_at (ex_container 9 6 0 3 3 [1, 2, 3]) 66)) -
     int (tell (archive_at (ex_container 9 6 0 3 3 [1, 2, 3]) 66)) \<and>
   load ex_X ex_E (ex_header 9 6 0 3 3) (archive_at (ex_container 9 6 0 3 3 [1, 2, 3]) 66) False =
     \<lparr>outcome = Inr (IncorrectFileSize, None),
      ar_after = archive_at (ex_container 9 6 0 3 3 [1, 2, 3]) 66, checks = []\<rparr>"
proof -
  have g: "Guid (ex_header 9 6 0 3 3) = Some \<lparr>guid_A = 7, guid_B = 0, guid_C = 0, guid_D = 0\<rparr>"
    by (simp add: ex_header_def)
  have c: "isValid \<lparr>guid_A = 7, guid_B = 0, guid_C = 0, guid_D = 0\<rparr>"
    "HashType (ex_header 9 6 0 3 3) \<noteq> EChunkHashFlags_None"
    "int (DataSizeCompressed (ex_header 9 6 0 3 3)) >
     int (size_ar (archive_at (ex_container 9 6 0 3 3 [1, 2, 3]) 66)) -
     int (tell (archive_at (ex_container 9 6 0 3 3 [1, 2, 3]) 66))"
    by (simp_all add: isValid_def FGuid_zero_def ex_header_def EChunkHashFlags_None_def
        size_ar_def tell_def archive_at_def ex_container_def)
  show ?thesis
    using load_result_taxonomy [OF g, of ex_X ex_E
        "archive_at (ex_container 9 6 0 3 3 [1, 2, 3]) 66" False] g c
    by simp
qed

text \<open>
  C2, as the code has it: when \<open>load\<close> returns \<open>Success\<close> it returns a payload buffer,
  whose length is \<open>DataSizeUncompressed\<close> when the compressed flag is set and
  \<open>DataSizeCompressed\<close>, the number of bytes read, when it is not.
\<close>

theorem load_success_payload_length:
  assumes "outcome (load X E h ar lazy) = Inr (Success, b)"
  shows "\<exists>buf. b = Some buf \<and>
           length buf =
             (if StoredAs h AND Compressed E = Compressed E then DataSizeUncompressed h
              else DataSizeCompressed h)"
  using load_success_payload [OF assms] load_payload_final_length
  by blast

lemma ex_load_stored_plain:
  "load ex_X ex_E (ex_header 3 6 0 3 5) (archive_at (ex_container 3 6 0 3 5 [1, 2, 3]) 66) False =
     \<lparr>outcome = Inr (Success, Some [1, 2, 3]),
      ar_after = archive_at (ex_container 3 6 0 3 5 [1, 2, 3]) 69,
      checks = [RollingOver [1, 2, 3], ShaOver [1, 2, 3]]\<rparr>"
  by (simp add: load_unfold ex_unfold)

theorem load_success_payload_length_witness:
  "outcome (load ex_X ex_E (ex_header 3 6 0 3 5)
      (archive_at (ex_container 3 6 0 3 5 [1, 2, 3]) 66) False) =
     Inr (Success, Some [1, 2, 3]) \<and>
   length [1, 2, 3 :: byte] = DataSizeCompressed (ex_header 3 6 0 3 5)"
proof -
  have s: "outcome (load ex_X ex_E (ex_header 3 6 0 3 5)
      (archive_at (ex_container 3 6 0 3 5 [1, 2, 3]) 66) False) =
     Inr (Success, Some [1, 2, 3])"
    by (simp add: ex_load_stored_plain)
  show ?thesis
    using load_success_payload_length [OF s] s
    by (simp add: ex_header_def ex_E_def)
qed

theorem load_success_length_counterexample:
  "FChunkHeader_new ex_E (archive_at (ex_container 3 6 0 3 5 [1, 2, 3]) 0) False =
     Some (ex_header 3 6 0 3 5, archive_at (ex_container 3 6 0 3 5 [1, 2, 3]) 66) \<and>
   outcome (load ex_X ex_E (ex_header 3 6 0 3 5)
      (archive_at (ex_container 3 6 0 3 5 [1, 2, 3]) 66) False) =
     Inr (Success, Some [1, 2, 3]) \<and>
   DataSizeUncompressed (ex_header 3 6 0 3 5) = 5 \<and>
   length [1, 2, 3 :: byte] \<noteq> DataSizeUncompressed (ex_header 3 6 0 3 5)"
  by (simp add: ex_new ex_load_stored_plain) (simp add: ex_header_def)

lemma load_after_payload:
  assumes "load_payload X E h ar lazy = (Inr (Inr buf), ar')"
  shows "load X E h ar lazy =
     \<lparr>outcome = fst (load_verify X h buf lazy), ar_after = ar',
      checks = snd (load_verify X h buf lazy)\<rparr>"
  by (simp add: load_def assms split: prod.split)

text \<open>
  C1, as the code has it: for a header decoded with verification enabled whose hash type
  has both the rolling and the SHA-1 flag, \<open>load\<close> always dispatches the rolling check
  over the final payload bytes, and first. When the rolling hash matches it goes on to
  dispatch the SHA-1 check over the same bytes; when it does not match, \<open>load\<close> returns
  \<open>HashCheckFailed\<close> at once and the SHA-1 check is not run. A mismatch in either one,
  also when the other is right, gives \<open>HashCheckFailed\<close>; \<open>Success\<close> needs both to match.
\<close>

theorem load_checks_rolling_then_sha:
  assumes "FChunkHeader_new E ar0 False = Some (h, ar1)"
    and "HashType h AND RollingPoly64 = RollingPoly64"
    and "HashType h AND Sha1 = Sha1"
    and "load_payload X E h ar False = (Inr (Inr buf), ar')"
  shows "\<exists>s. SHAHash h = Some s \<and>
     (toHex X (GetHashForDataSet X buf) = toHex X (RollingHash h) \<longrightarrow>
        checks (load X E h ar False) = [RollingOver buf, ShaOver buf]) \<and>
     (toHex X (GetHashForDataSet X buf) \<noteq> toHex X (RollingHash h) \<longrightarrow>
        checks (load X E h ar False) = [RollingOver buf] \<and>
        outcome (load X E h ar False) = Inr (HashCheckFailed, None)) \<and>
     (toHex X (GetHashForDataSet X buf) = toHex X (RollingHash h) \<and>
      sha1_hex_upper X buf \<noteq> SHAHash_toString X s \<longrightarrow>
        outcome (load X E h ar False) = Inr (HashCheckFailed, None)) \<and>
     (toHex X (GetHashForDataSet X buf) = toHex X (RollingHash h) \<and>
      sha1_hex_upper X buf = SHAHash_toString X s \<longrightarrow>
        outcome (load X E h ar False) = Inr (Success, Some buf))"
proof -
  obtain s where s: "SHAHash h = Some s"
    using new_sha_defined [OF assms(1) assms(3)] by blast
  show ?thesis
    unfolding load_after_payload [OF assms(4)]
    using s assms(2) assms(3)
    by (simp add: load_verify_def Let_def)
qed

lemma ex_load_payload:
  "load_payload ex_X ex_E (ex_header 3 rh 0 3 3) (archive_at (ex_container 3 rh 0 3 3 [1, 2, 3]) 66)
     False = (Inr (Inr [1, 2, 3]), archive_at (ex_container 3 rh 0 3 3 [1, 2, 3]) 69)"
  by (simp add: load_unfold ex_unfold)

theorem load_checks_rolling_then_sha_witness:
  "FChunkHeader_new ex_E (archive_at (ex_container 3 6 0 3 3 [1, 2, 3]) 0) False =
     Some (ex_header 3 6 0 3 3, archive_at (ex_container 3 6 0 3 3 [1, 2, 3]) 66) \<and>
   HashType (ex_header 3 6 0 3 3) AND RollingPoly64 = RollingPoly64 \<and>
   HashType (ex_header 3 6 0 3 3) AND Sha1 = Sha1 \<and>
   load_payload ex_X ex_E (ex_header 3 6 0 3 3)
     (archive_at (ex_container 3 6 0 3 3 [1, 2, 3]) 66) False =
     (Inr (Inr [1, 2, 3]), archive_at (ex_container 3 6 0 3 3 [1, 2, 3]) 69) \<and>
   checks (load ex_X ex_E (ex_header 3 6 0 3 3)
     (archive_at (ex_container 3 6 0 3 3 [1, 2, 3]) 66) False) =
     [RollingOver [1, 2, 3], ShaOver [1, 2, 3]] \<and>
   outcome (load ex_X ex_E (ex_header 3 6 0 3 3)
     (archive_at (ex_container 3 6 0 3 3 [1, 2, 3]) 66) False) =
     Inr (Success, Some [1, 2, 3])"
proof -
  have n: "FChunkHeader_new ex_E (archive_at (ex_container 3 6 0 3 3 [1, 2, 3]) 0) False =
     Some (ex_header 3 6 0 3 3, archive_at (ex_container 3 6 0 3 3 [1, 2, 3]) 66)"
    by (rule ex_new)
  have f: "HashType (ex_header 3 6 0 3 3) AND RollingPoly64 = RollingPoly64"
    "HashType (ex_header 3 6 0 3 3) AND Sha1 = Sha1"
    by (simp_all add: ex_header_def RollingPoly64_def Sha1_def)
  have p: "load_payload ex_X ex_E (ex_header 3 6 0 3 3)
     (archive_at (ex_container 3 6 0 3 3 [1, 2, 3]) 66) False =
     (Inr (Inr [1, 2, 3]), archive_at (ex_container 3 6 0 3 3 [1, 2, 3]) 69)"
    by (rule ex_load_payload)
  have m: "toHex ex_X (GetHashForDataSet ex_X [1, 2, 3]) =
      toHex ex_X (RollingHash (ex_header 3 6 0 3 3))"
    "sha1_hex_upper ex_X [1, 2, 3] =
      SHAHash_toString ex_X [3, 0, 0, 0, 0, 0, 0, 0, 0, 0, 0, 0, 0, 0, 0, 0, 0, 0, 0, 0]"
    "SHAHash (ex_header 3 6 0 3 3) =
      Some [3, 0, 0, 0, 0, 0, 0, 0, 0, 0, 0, 0, 0, 0, 0, 0, 0, 0, 0, 0]"
    by (simp_all add: ex_unfold)
  show ?thesis
    using load_checks_rolling_then_sha [OF n f p] n f p m
    by auto
qed

theorem load_sha_check_skipped_counterexample:
  "FChunkHeader_new ex_E (archive_at (ex_container 3 7 0 3 3 [1, 2, 3]) 0) False =
     Some (ex_header 3 7 0 3 3, archive_at (ex_container 3 7 0 3 3 [1, 2, 3]) 66) \<and>
   HashType (ex_header 3 7 0 3 3) AND RollingPoly64 = RollingPoly64 \<and>
   HashType (ex_header 3 7 0 3 3) AND Sha1 = Sha1 \<and>
   load ex_X ex_E (ex_header 3 7 0 3 3) (archive_at (ex_container 3 7 0 3 3 [1, 2, 3]) 66) False =
     \<lparr>outcome = Inr (HashCheckFailed, None),
      ar_after = archive_at (ex_container 3 7 0 3 3 [1, 2, 3]) 69,
      checks = [RollingOver [1, 2, 3]]\<rparr> \<and>
   ShaOver [1, 2, 3] \<notin> set (checks (load ex_X ex_E (ex_header 3 7 0 3 3)
      (archive_at (ex_container 3 7 0 3 3 [1, 2, 3]) 66) False))"
proof -
  have l: "load ex_X ex_E (ex_header 3 7 0 3 3)
      (archive_at (ex_container 3 7 0 3 3 [1, 2, 3]) 66) False =
     \<lparr>outcome = Inr (HashCheckFailed, None),
      ar_after = archive_at (ex_container 3 7 0 3 3 [1, 2, 3]) 69,
      checks = [RollingOver [1, 2, 3]]\<rparr>"
    by (simp add: load_unfold ex_unfold)
  show ?thesis
    by (simp add: ex_new l) (simp add: ex_header_def RollingPoly64_def Sha1_def)
qed

text \<open>
  C6: with verification disabled the constructor leaves the hash-bearing fields as they
  were initialised, whatever the bytes are (rolling hash 0, hash type rolling-only, no
  digest, or the zero digest after a failed decode); \<open>load\<close> dispatches no hash
  computation, returns \<open>Success\<close> with the payload whenever the payload stage yields one,
  and its whole result is the same for any stored hash values and any hash functions; and
  a cache hit returns the cached bytes with the world unchanged, so without computing a
  hash or making a request.
\<close>

theorem lazy_mode_runs_no_integrity_check:
  "(FChunkHeader_new E ar True = Some (h0, ar') \<longrightarrow>
      RollingHash h0 = 0 \<and> HashType h0 = RollingPoly64 \<and>
      (SHAHash h0 = None \<or> SHAHash h0 = Some FSHAHash_zero)) \<and>
   checks (load X E h ar2 True) = [] \<and>
   (load_payload X E h ar2 True = (Inr (Inr buf), ar3) \<longrightarrow>
      load X E h ar2 True =
        \<lparr>outcome = Inr (Success, Some buf), ar_after = ar3, checks = []\<rparr>) \<and>
   load (X\<lparr>GetHashForDataSet := rf, toHex := tf, sha1_hex_upper := sf,
            SHAHash_toString := df\<rparr>) E
        (h\<lparr>HashType := t, RollingHash := r, SHAHash := s\<rparr>) ar2 True =
     load X E h ar2 True \<and>
   (opt_lazy (options p) \<and> cacheDirectory (options p) = Some dir \<and>
    files w (join X dir (Filename p)) = Some cached \<longrightarrow>
      loadData_fetch X E p w = (Inr cached, w) \<and>
      loadData X E p w =
        (case loadData_slice p cached of
           None \<Rightarrow> (Inl (Uncaught RangeError), w)
         | Some result \<Rightarrow> (Inr result, w)))"
proof -
  have a: "RollingHash h0 = 0 \<and> HashType h0 = RollingPoly64 \<and>
      (SHAHash h0 = None \<or> SHAHash h0 = Some FSHAHash_zero)"
    if n: "FChunkHeader_new E ar True = Some (h0, ar')"
  proof -
    obtain b h1 a1 where d: "FChunkHeader_decode E ar True = Some (b, h1, a1)"
      using decode_total by blast
    show ?thesis
    proof (cases b)
      case True
      with d n have "h0 = h1"
        by (simp add: FChunkHeader_new_def)
      with decode_lazy_hash_fields [OF d] show ?thesis
        by simp
    next
      case False
      with d n have "h0 = zeroed_header E"
        by (simp add: FChunkHeader_new_def)
      then show ?thesis
        by (simp add: zeroed_header_def)
    qed
  qed
  have v: "load_verify X' h' buf' True = (Inr (Success, Some buf'), [])" for X' h' buf'
    by (simp add: load_verify_def)
  have b: "checks (load X E h ar2 True) = []"
    by (simp add: load_def v split: prod.split sum.split)
  have c: "load X E h ar2 True =
        \<lparr>outcome = Inr (Success, Some buf), ar_after = ar3, checks = []\<rparr>"
    if "load_payload X E h ar2 True = (Inr (Inr buf), ar3)"
    by (simp add: load_after_payload [OF that] v)
  have "load_payload (X\<lparr>GetHashForDataSet := rf, toHex := tf, sha1_hex_upper := sf,
            SHAHash_toString := df\<rparr>) E
        (h\<lparr>HashType := t, RollingHash := r, SHAHash := s\<rparr>) ar2 True =
      load_payload X E h ar2 True"
    by (simp add: load_payload_def Let_def cong: option.case_cong prod.case_cong if_cong)
  then have d: "load (X\<lparr>GetHashForDataSet := rf, toHex := tf, sha1_hex_upper := sf,
            SHAHash_toString := df\<rparr>) E
        (h\<lparr>HashType := t, RollingHash := r, SHAHash := s\<rparr>) ar2 True =
     load X E h ar2 True"
    by (simp add: load_def v split: prod.split sum.split)
  have e: "loadData_fetch X E p w = (Inr cached, w) \<and>
      loadData X E p w =
        (case loadData_slice p cached of
           None \<Rightarrow> (Inl (Uncaught RangeError), w)
         | Some result \<Rightarrow> (Inr result, w))"
    if "opt_lazy (options p)" "cacheDirectory (options p) = Some dir"
      "files w (join X dir (Filename p)) = Some cached"
    using that
    by (simp add: loadData_def loadData_fetch_hit [OF that(2) that(3)] loadData_cached_lazy)
  from a b c d e show ?thesis
    by blast
qed

lemma ex_new_lazy:
  "FChunkHeader_new ex_E (archive_at (ex_container dsc rh st ht dsu payload) 0) True =
     Some ((ex_header dsc rh st ht dsu)\<lparr>RollingHash := 0, HashType := RollingPoly64,
              SHAHash := None\<rparr>,
           archive_at (ex_container dsc rh st ht dsu payload) 66)"
  by (simp add: FChunkHeader_new_def ex_decode_lazy)
     (simp add: ex_header_def archive_at_def seek_def tell_def)

theorem lazy_mode_runs_no_integrity_check_witness:
  "FChunkHeader_new ex_E (archive_at (ex_container 4 99 0 3 4 [1, 2, 3, 4]) 0) True =
     Some ((ex_header 4 99 0 3 4)\<lparr>RollingHash := 0, HashType := RollingPoly64, SHAHash := None\<rparr>,
           archive_at (ex_container 4 99 0 3 4 [1, 2, 3, 4]) 66) \<and>
   load_payload ex_X ex_E
     ((ex_header 4 99 0 3 4)\<lparr>RollingHash := 0, HashType := RollingPoly64, SHAHash := None\<rparr>)
     (archive_at (ex_container 4 99 0 3 4 [1, 2, 3, 4]) 66) True =
     (Inr (Inr [1, 2, 3, 4]), archive_at (ex_container 4 99 0 3 4 [1, 2, 3, 4]) 70) \<and>
   load ex_X ex_E
     ((ex_header 4 99 0 3 4)\<lparr>RollingHash := 0, HashType := RollingPoly64, SHAHash := None\<rparr>)
     (archive_at (ex_container 4 99 0 3 4 [1, 2, 3, 4]) 66) True =
     \<lparr>outcome = Inr (Success, Some [1, 2, 3, 4]),
      ar_after = archive_at (ex_container 4 99 0 3 4 [1, 2, 3, 4]) 70,
      checks = []\<rparr> \<and>
   outcome (load ex_X ex_E (ex_header 4 99 0 3 4)
     (archive_at (ex_container 4 99 0 3 4 [1, 2, 3, 4]) 66) False) =
     Inr (HashCheckFailed, None) \<and>
   opt_lazy (options (ex_part 0 3 ''FF'' True)) \<and>
   loadData ex_X ex_E (ex_part 0 3 ''FF'' True)
     (ex_world [''cache/FF_G.chunk'' \<mapsto> [1, 2, 3]] []) =
     (Inr [1, 2, 3], ex_world [''cache/FF_G.chunk'' \<mapsto> [1, 2, 3]] [])"
proof -
  let ?h = "(ex_header 4 99 0 3 4)\<lparr>RollingHash := 0, HashType := RollingPoly64, SHAHash := None\<rparr>"
  let ?c = "ex_container 4 99 0 3 4 [1, 2, 3, 4]"
  let ?p = "ex_part 0 3 ''FF'' True"
  let ?w = "ex_world [''cache/FF_G.chunk'' \<mapsto> [1, 2, 3]] []"
  note t = lazy_mode_runs_no_integrity_check
    [where E = ex_E and X = ex_X and h = ?h and ?ar2.0 = "archive_at ?c 66"
       and buf = "[1, 2, 3, 4]" and ?ar3.0 = "archive_at ?c 70"
       and p = ?p and w = ?w and dir = "''cache''" and cached = "[1, 2, 3]"]
  have n: "FChunkHeader_new ex_E (archive_at ?c 0) True = Some (?h, archive_at ?c 66)"
    by (rule ex_new_lazy)
  have lp: "load_payload ex_X ex_E ?h (archive_at ?c 66) True =
     (Inr (Inr [1, 2, 3, 4]), archive_at ?c 70)"
    by (simp add: load_unfold ex_unfold)
  have l: "load ex_X ex_E ?h (archive_at ?c 66) True =
     \<lparr>outcome = Inr (Success, Some [1, 2, 3, 4]),
      ar_after = archive_at ?c 70, checks = []\<rparr>"
    using t lp by blast
  have f: "outcome (load ex_X ex_E (ex_header 4 99 0 3 4) (archive_at ?c 66) False) =
     Inr (HashCheckFailed, None)"
    by (simp add: load_unfold ex_unfold)
  have hit: "opt_lazy (options ?p)" "cacheDirectory (options ?p) = Some ''cache''"
    "files ?w (join ex_X ''cache'' (Filename ?p)) = Some [1, 2, 3]"
    by (simp_all add: ex_part_def ex_world_def ex_X_def)
  have s: "loadData_slice ?p [1, 2, 3] = Some [1, 2, 3]"
    by (simp add: loadData_slice_in_range ex_part_def)
  have "loadData ex_X ex_E ?p ?w = (Inr [1, 2, 3], ?w)"
    using t hit s by simp
  with n lp l f hit(1) show ?thesis
    by simp
qed

section \<open>The resolver\<close>

text \<open>
  C8: on a cache hit with verification enabled, when the rolling hash or the SHA-1 digest
  of the cached bytes differs from the value the reference expects, \<open>loadData\<close> throws:
  the hash-mismatch error when the rolling hash differs, else the digest-mismatch error,
  each with the file name, the recomputed value and the expected value. No request is
  made and no file is written.
\<close>

theorem corrupted_cache_entry_throws_without_request:
  assumes "cacheDirectory (options p) = Some dir"
    and "files w (join X dir (Filename p)) = Some cached"
    and "\<not> opt_lazy (options p)"
    and "toHex X (GetHashForDataSet X cached) \<noteq> Hash p \<or>
         Some (sha1_hex_upper X cached) \<noteq> Sha p"
  shows "fst (loadData X E p w) =
           (if toHex X (GetHashForDataSet X cached) \<noteq> Hash p
            then Inl (HashMismatch (Filename p) (toHex X (GetHashForDataSet X cached)) (Hash p))
            else Inl (ShaMismatch (Filename p) (sha1_hex_upper X cached) (Sha p))) \<and>
         requests (snd (loadData X E p w)) = requests w \<and>
         files (snd (loadData X E p w)) = files w"
  using assms(3) assms(4)
  by (auto simp: loadData_def loadData_fetch_hit [OF assms(1) assms(2)] loadData_cached_def
      Let_def)

theorem corrupted_cache_entry_throws_without_request_witness:
  "cacheDirectory (options (ex_part 0 3 ''FF'' False)) = Some ''cache'' \<and>
   files (ex_world [''cache/FF_G.chunk'' \<mapsto> [1, 2, 3]] [])
     (join ex_X ''cache'' (Filename (ex_part 0 3 ''FF'' False))) = Some [1, 2, 3] \<and>
   \<not> opt_lazy (options (ex_part 0 3 ''FF'' False)) \<and>
   toHex ex_X (GetHashForDataSet ex_X [1, 2, 3]) \<noteq> Hash (ex_part 0 3 ''FF'' False) \<and>
   fst (loadData ex_X ex_E (ex_part 0 3 ''FF'' False)
          (ex_world [''cache/FF_G.chunk'' \<mapsto> [1, 2, 3]] [])) =
     Inl (HashMismatch ''FF_G.chunk'' ''06'' ''FF'') \<and>
   requests (snd (loadData ex_X ex_E (ex_part 0 3 ''FF'' False)
          (ex_world [''cache/FF_G.chunk'' \<mapsto> [1, 2, 3]] []))) = []"
proof -
  let ?p = "ex_part 0 3 ''FF'' False"
  let ?w = "ex_world [''cache/FF_G.chunk'' \<mapsto> [1, 2, 3]] []"
  have a: "cacheDirectory (options ?p) = Some ''cache''"
    "files ?w (join ex_X ''cache'' (Filename ?p)) = Some [1, 2, 3]"
    "\<not> opt_lazy (options ?p)"
    by (simp_all add: ex_part_def ex_world_def ex_X_def)
  have m: "toHex ex_X (GetHashForDataSet ex_X [1, 2, 3]) \<noteq> Hash ?p"
    by (simp add: ex_part_def ex_unfold)
  then have m': "toHex ex_X (GetHashForDataSet ex_X [1, 2, 3]) \<noteq> Hash ?p \<or>
         Some (sha1_hex_upper ex_X [1, 2, 3]) \<noteq> Sha ?p"
    by simp
  have v: "toHex ex_X (GetHashForDataSet ex_X [1, 2, 3]) = ''06''" "Hash ?p = ''FF''"
    "Filename ?p = ''FF_G.chunk''" "requests ?w = []"
    by (simp_all add: ex_part_def ex_world_def ex_unfold)
  show ?thesis
    using corrupted_cache_entry_throws_without_request [OF a m', of ex_E] a m
    by (simp add: v)
qed

text \<open>A download that yields a payload has made one request and stored the payload.\<close>

lemma loadData_download_stores:
  assumes "loadData_download X E p (Some q) w = (Inr payload, w1)"
  shows "files w1 q = Some payload"
  using assms
  by (auto simp: loadData_download_def Let_def
      split: option.splits if_splits sum.splits prod.splits)

lemma loadData_Inr:
  assumes "loadData X E p w = (Inr r, w1)"
  shows "\<exists>payload. loadData_fetch X E p w = (Inr payload, w1) \<and>
           loadData_slice p payload = Some r"
  using assms
  by (auto simp: loadData_def split: prod.splits sum.splits option.splits)

text \<open>
  C7, as the code has it: after a cache miss with a cache directory configured, a fetch
  that returns has written the payload to the cache file. A second fetch of the same
  reference takes the cache-hit path and makes no request. It returns the same bytes for
  the same window when verification is disabled, or when the rolling hash and the SHA-1
  digest of the cached payload equal the values that the reference expects; otherwise it
  throws the corrupted-cache error for the check that differs.
\<close>

theorem second_fetch_reads_what_first_wrote:
  assumes "cacheDirectory (options p) = Some dir"
    and "files w (join X dir (Filename p)) = None"
    and "loadData X E p w = (Inr r1, w1)"
  shows "\<exists>payload.
     files w1 (join X dir (Filename p)) = Some payload \<and>
     loadData_slice p payload = Some r1 \<and>
     requests (snd (loadData X E p w1)) = requests w1 \<and>
     (opt_lazy (options p) \<or>
      (toHex X (GetHashForDataSet X payload) = Hash p \<and>
       Some (sha1_hex_upper X payload) = Sha p) \<longrightarrow>
        fst (loadData X E p w1) = Inr r1) \<and>
     (\<not> opt_lazy (options p) \<and> toHex X (GetHashForDataSet X payload) \<noteq> Hash p \<longrightarrow>
        fst (loadData X E p w1) =
          Inl (HashMismatch (Filename p) (toHex X (GetHashForDataSet X payload)) (Hash p))) \<and>
     (\<not> opt_lazy (options p) \<and> toHex X (GetHashForDataSet X payload) = Hash p \<and>
      Some (sha1_hex_upper X payload) \<noteq> Sha p \<longrightarrow>
        fst (loadData X E p w1) =
          Inl (ShaMismatch (Filename p) (sha1_hex_upper X payload) (Sha p)))"
proof -
  obtain payload where f: "loadData_fetch X E p w = (Inr payload, w1)"
    and s: "loadData_slice p payload = Some r1"
    using loadData_Inr [OF assms(3)] by blast
  from f assms(1) assms(2)
  have "loadData_download X E p (Some (join X dir (Filename p))) w = (Inr payload, w1)"
    by (simp add: loadData_fetch_def)
  then have c: "files w1 (join X dir (Filename p)) = Some payload"
    by (rule loadData_download_stores)
  have l: "loadData X E p w1 =
     (case loadData_cached X p payload w1 of
        (Inl e, w') \<Rightarrow> (Inl e, w')
      | (Inr cached, w') \<Rightarrow>
          (case loadData_slice p cached of
             None \<Rightarrow> (Inl (Uncaught RangeError), w')
           | Some result \<Rightarrow> (Inr result, w')))"
    by (simp add: loadData_def loadData_fetch_hit [OF assms(1) c])
  have "requests (snd (loadData X E p w1)) = requests w1"
    unfolding l by (simp add: loadData_cached_def Let_def s)
  moreover have "fst (loadData X E p w1) = Inr r1"
    if "opt_lazy (options p) \<or>
      (toHex X (GetHashForDataSet X payload) = Hash p \<and>
       Some (sha1_hex_upper X payload) = Sha p)"
    using that unfolding l by (auto simp: loadData_cached_def Let_def s)
  moreover have "fst (loadData X E p w1) =
          Inl (HashMismatch (Filename p) (toHex X (GetHashForDataSet X payload)) (Hash p))"
    if "\<not> opt_lazy (options p) \<and> toHex X (GetHashForDataSet X payload) \<noteq> Hash p"
    using that unfolding l by (simp add: loadData_cached_def Let_def)
  moreover have "fst (loadData X E p w1) =
          Inl (ShaMismatch (Filename p) (sha1_hex_upper X payload) (Sha p))"
    if "\<not> opt_lazy (options p) \<and> toHex X (GetHashForDataSet X payload) = Hash p \<and>
      Some (sha1_hex_upper X payload) \<noteq> Sha p"
    using that unfolding l by (simp add: loadData_cached_def Let_def)
  ultimately show ?thesis
    using c s by blast
qed

lemma ex_readUInt32_magic:
  "readUInt32 \<lparr>ar_data = ex_container dsc rh st ht dsu payload, ar_pos = 0\<rparr> =
     Some (MAGIC, archive_at (ex_container dsc rh st ht dsu payload) 4)"
  by (simp add: readUInt32_def read_def ex_container_def MAGIC_def archive_at_def)

lemma ex_download:
  "loadData_download ex_X ex_E (ex_part off sz hash False) (Some q)
     (ex_world fs (ex_container 3 6 0 3 3 [1, 2, 3])) =
   (Inr [1, 2, 3],
    \<lparr>files = fs(q \<mapsto> [1, 2, 3]), remote = (\<lambda>uri. (200, ex_container 3 6 0 3 3 [1, 2, 3])),
     requests = [''http://cdn/05/'' @ hash @ ''_G.chunk''],
     hash_log = [RollingOver [1, 2, 3], ShaOver [1, 2, 3]]\<rparr>)"
proof -
  have l: "load ex_X ex_E (ex_header 3 6 0 3 3)
      (archive_at (ex_container 3 6 0 3 3 [1, 2, 3]) 66) False =
     \<lparr>outcome = Inr (Success, Some [1, 2, 3]),
      ar_after = archive_at (ex_container 3 6 0 3 3 [1, 2, 3]) 69,
      checks = [RollingOver [1, 2, 3], ShaOver [1, 2, 3]]\<rparr>"
    by (simp add: load_unfold ex_unfold)
  have k: "seek 0 (archive_at bs 4) = archive_at bs 0" for bs
    by (simp add: seek_def archive_at_def)
  show ?thesis
    by (simp add: loadData_download_def Let_def ex_part_def ex_world_def endsWith_slash_def
        ex_readUInt32_magic k ex_new l)
qed

theorem second_fetch_reads_what_first_wrote_witness:
  "cacheDirectory (options (ex_part 0 2 ''06'' False)) = Some ''cache'' \<and>
   files (ex_world Map.empty (ex_container 3 6 0 3 3 [1, 2, 3]))
     (join ex_X ''cache'' (Filename (ex_part 0 2 ''06'' False))) = None \<and>
   fst (loadData ex_X ex_E (ex_part 0 2 ''06'' False)
          (ex_world Map.empty (ex_container 3 6 0 3 3 [1, 2, 3]))) = Inr [1, 2] \<and>
   fst (loadData ex_X ex_E (ex_part 0 2 ''06'' False)
          (snd (loadData ex_X ex_E (ex_part 0 2 ''06'' False)
                  (ex_world Map.empty (ex_container 3 6 0 3 3 [1, 2, 3]))))) = Inr [1, 2]"
proof -
  let ?p = "ex_part 0 2 ''06'' False"
  let ?w = "ex_world Map.empty (ex_container 3 6 0 3 3 [1, 2, 3])"
  let ?w1 = "\<lparr>files = [''cache/06_G.chunk'' \<mapsto> [1, 2, 3]],
     remote = (\<lambda>uri. (200, ex_container 3 6 0 3 3 [1, 2, 3])),
     requests = [''http://cdn/05/06_G.chunk''],
     hash_log = [RollingOver [1, 2, 3], ShaOver [1, 2, 3]]\<rparr>"
  have a: "cacheDirectory (options ?p) = Some ''cache''"
    "files ?w (join ex_X ''cache'' (Filename ?p)) = None"
    by (simp_all add: ex_part_def ex_world_def ex_X_def)
  have j: "join ex_X ''cache'' (Filename ?p) = ''cache/06_G.chunk''"
    by (simp add: ex_part_def ex_X_def)
  have "loadData_fetch ex_X ex_E ?p ?w = (Inr [1, 2, 3], ?w1)"
    using a ex_download [of 0 2 "''06''" "''cache/06_G.chunk''" Map.empty]
    by (simp add: loadData_fetch_def j)
  moreover have "loadData_slice ?p [1, 2, 3] = Some [1, 2]"
    by (simp add: loadData_slice_in_range ex_part_def)
  ultimately have first: "loadData ex_X ex_E ?p ?w = (Inr [1, 2], ?w1)"
    by (simp add: loadData_def)
  obtain payload where c: "files ?w1 (join ex_X ''cache'' (Filename ?p)) = Some payload"
    and m: "opt_lazy (options ?p) \<or>
      (toHex ex_X (GetHashForDataSet ex_X payload) = Hash ?p \<and>
       Some (sha1_hex_upper ex_X payload) = Sha ?p) \<longrightarrow>
        fst (loadData ex_X ex_E ?p ?w1) = Inr [1, 2]"
    using second_fetch_reads_what_first_wrote [OF a first] by blast
  from c have "payload = [1, 2, 3]"
    by (simp add: j)
  then have "toHex ex_X (GetHashForDataSet ex_X payload) = Hash ?p \<and>
       Some (sha1_hex_upper ex_X payload) = Sha ?p"
    by (simp add: ex_part_def ex_unfold)
  with m have "fst (loadData ex_X ex_E ?p ?w1) = Inr [1, 2]"
    by blast
  with a first show ?thesis
    by simp
qed

theorem second_fetch_throws_counterexample:
  "fst (loadData ex_X ex_E (ex_part 0 2 ''FF'' False)
          (ex_world Map.empty (ex_container 3 6 0 3 3 [1, 2, 3]))) = Inr [1, 2] \<and>
   files (snd (loadData ex_X ex_E (ex_part 0 2 ''FF'' False)
          (ex_world Map.empty (ex_container 3 6 0 3 3 [1, 2, 3])))) ''cache/FF_G.chunk'' =
     Some [1, 2, 3] \<and>
   fst (loadData ex_X ex_E (ex_part 0 2 ''FF'' False)
          (snd (loadData ex_X ex_E (ex_part 0 2 ''FF'' False)
                  (ex_world Map.empty (ex_container 3 6 0 3 3 [1, 2, 3]))))) =
     Inl (HashMismatch ''FF_G.chunk'' ''06'' ''FF'')"
proof -
  let ?p = "ex_part 0 2 ''FF'' False"
  let ?w = "ex_world Map.empty (ex_container 3 6 0 3 3 [1, 2, 3])"
  let ?w1 = "\<lparr>files = [''cache/FF_G.chunk'' \<mapsto> [1, 2, 3]],
     remote = (\<lambda>uri. (200, ex_container 3 6 0 3 3 [1, 2, 3])),
     requests = [''http://cdn/05/FF_G.chunk''],
     hash_log = [RollingOver [1, 2, 3], ShaOver [1, 2, 3]]\<rparr>"
  have a: "cacheDirectory (options ?p) = Some ''cache''"
    "files ?w (join ex_X ''cache'' (Filename ?p)) = None"
    by (simp_all add: ex_part_def ex_world_def ex_X_def)
  have j: "join ex_X ''cache'' (Filename ?p) = ''cache/FF_G.chunk''"
    by (simp add: ex_part_def ex_X_def)
  have "loadData_fetch ex_X ex_E ?p ?w = (Inr [1, 2, 3], ?w1)"
    using a ex_download [of 0 2 "''FF''" "''cache/FF_G.chunk''" Map.empty]
    by (simp add: loadData_fetch_def j)
  moreover have "loadData_slice ?p [1, 2, 3] = Some [1, 2]"
    by (simp add: loadData_slice_in_range ex_part_def)
  ultimately have first: "loadData ex_X ex_E ?p ?w = (Inr [1, 2], ?w1)"
    by (simp add: loadData_def)
  have c: "files ?w1 (join ex_X ''cache'' (Filename ?p)) = Some [1, 2, 3]"
    by (simp add: j)
  have "loadData_cached ex_X ?p [1, 2, 3] ?w1 =
     (Inl (HashMismatch ''FF_G.chunk'' ''06'' ''FF''),
      ?w1\<lparr>hash_log := hash_log ?w1 @ [RollingOver [1, 2, 3]]\<rparr>)"
    by (simp add: loadData_cached_def Let_def ex_part_def ex_unfold)
  then have "fst (loadData ex_X ex_E ?p ?w1) = Inl (HashMismatch ''FF_G.chunk'' ''06'' ''FF'')"
    by (simp add: loadData_def loadData_fetch_hit [OF a(1) c])
  with first show ?thesis
    by simp
qed

text \<open>
  C9: whenever \<open>Offset + Size\<close> is at most the length of the full payload that
  \<open>loadData\<close> obtained, it returns exactly \<open>Size\<close> bytes, the payload bytes from
  \<open>Offset\<close> up to \<open>Offset + Size\<close>; offset 0 with the full length returns the whole
  payload and size 0 returns the empty buffer.
\<close>

theorem loadData_returns_requested_window:
  assumes "loadData_fetch X E p w = (Inr payload, w')"
    and "Offset p + Size p \<le> length payload"
  shows "\<exists>result. loadData X E p w = (Inr result, w') \<and>
           result = take (Size p) (drop (Offset p) payload) \<and>
           length result = Size p \<and>
           (\<forall>i < Size p. result ! i = payload ! (Offset p + i)) \<and>
           (Offset p = 0 \<and> Size p = length payload \<longrightarrow> result = payload) \<and>
           (Size p = 0 \<longrightarrow> result = [])"
proof -
  have "Offset p \<le> length payload" and z: "Size p - (length payload - Offset p) = 0"
    using assms(2) by simp_all
  then have "loadData_slice p payload = Some (take (Size p) (drop (Offset p) payload))"
    by (simp add: loadData_slice_in_range)
  then have "loadData X E p w = (Inr (take (Size p) (drop (Offset p) payload)), w')"
    by (simp add: loadData_def assms(1))
  then show ?thesis
    using assms(2) by auto
qed

theorem loadData_returns_requested_window_witness:
  "loadData_fetch ex_X ex_E (ex_part 1 2 ''06'' True)
     (ex_world [''cache/06_G.chunk'' \<mapsto> [1, 2, 3]] []) =
     (Inr [1, 2, 3], ex_world [''cache/06_G.chunk'' \<mapsto> [1, 2, 3]] []) \<and>
   Offset (ex_part 1 2 ''06'' True) + Size (ex_part 1 2 ''06'' True) \<le> length [1, 2, 3 :: byte] \<and>
   loadData ex_X ex_E (ex_part 1 2 ''06'' True)
     (ex_world [''cache/06_G.chunk'' \<mapsto> [1, 2, 3]] []) =
     (Inr [2, 3], ex_world [''cache/06_G.chunk'' \<mapsto> [1, 2, 3]] [])"
proof -
  have f: "loadData_fetch ex_X ex_E (ex_part 1 2 ''06'' True)
     (ex_world [''cache/06_G.chunk'' \<mapsto> [1, 2, 3]] []) =
     (Inr [1, 2, 3], ex_world [''cache/06_G.chunk'' \<mapsto> [1, 2, 3]] [])"
    by (rule ex_fetch_hit_lazy)
  have r: "Offset (ex_part 1 2 ''06'' True) + Size (ex_part 1 2 ''06'' True)
      \<le> length [1, 2, 3 :: byte]"
    by (simp add: ex_part_def)
  show ?thesis
    using loadData_returns_requested_window [OF f r] f r
    by (simp add: ex_part_def)
qed

text \<open>
  C10, as the code has it: when \<open>Offset + Size\<close> exceeds the length of the fetched payload
  and \<open>Offset\<close> itself is at most that length, \<open>loadData\<close> signals nothing and returns
  \<open>Size\<close> bytes, the payload from \<open>Offset\<close> to its end followed by zeros. When \<open>Offset\<close>
  is beyond the payload's length, the copy raises a \<open>RangeError\<close> and \<open>loadData\<close> fails.
\<close>

theorem window_beyond_payload:
  assumes "loadData_fetch X E p w = (Inr payload, w')"
    and "length payload < Offset p + Size p"
  shows "(Offset p \<le> length payload \<longrightarrow>
            (\<exists>result. loadData X E p w = (Inr result, w') \<and>
               result = drop (Offset p) payload @
                        replicate (Offset p + Size p - length payload) 0 \<and>
               length result = Size p \<and>
               (\<forall>i < Size p. result ! i =
                  (if Offset p + i < length payload then payload ! (Offset p + i) else 0)))) \<and>
         (length payload < Offset p \<longrightarrow> loadData X E p w = (Inl (Uncaught RangeError), w'))"
proof -
  have a: "\<exists>result. loadData X E p w = (Inr result, w') \<and>
               result = drop (Offset p) payload @
                        replicate (Offset p + Size p - length payload) 0 \<and>
               length result = Size p \<and>
               (\<forall>i < Size p. result ! i =
                  (if Offset p + i < length payload then payload ! (Offset p + i) else 0))"
    if le: "Offset p \<le> length payload"
  proof -
    let ?r = "drop (Offset p) payload @ replicate (Offset p + Size p - length payload) 0"
    have t: "take (Size p) (drop (Offset p) payload) = drop (Offset p) payload"
      using assms(2) by simp
    have n: "Size p - (length payload - Offset p) = Offset p + Size p - length payload"
      using le by simp
    have "loadData_slice p payload = Some ?r"
      by (simp add: loadData_slice_in_range [OF le] t n)
    then have l: "loadData X E p w = (Inr ?r, w')"
      by (simp add: loadData_def assms(1))
    have len: "length ?r = Size p"
      using le assms(2) by simp
    have nth: "?r ! i = (if Offset p + i < length payload then payload ! (Offset p + i) else 0)"
      if "i < Size p" for i
      using that le assms(2) by (auto simp: nth_append)
    from l len nth show ?thesis
      by blast
  qed
  have b: "loadData X E p w = (Inl (Uncaught RangeError), w')"
    if "length payload < Offset p"
    by (simp add: loadData_def assms(1) loadData_slice_beyond [OF that])
  from a b show ?thesis
    by blast
qed

theorem window_beyond_payload_witness:
  "loadData_fetch ex_X ex_E (ex_part 2 3 ''06'' True)
     (ex_world [''cache/06_G.chunk'' \<mapsto> [1, 2, 3]] []) =
     (Inr [1, 2, 3], ex_world [''cache/06_G.chunk'' \<mapsto> [1, 2, 3]] []) \<and>
   length [1, 2, 3 :: byte] < Offset (ex_part 2 3 ''06'' True) + Size (ex_part 2 3 ''06'' True) \<and>
   Offset (ex_part 2 3 ''06'' True) \<le> length [1, 2, 3 :: byte] \<and>
   loadData ex_X ex_E (ex_part 2 3 ''06'' True)
     (ex_world [''cache/06_G.chunk'' \<mapsto> [1, 2, 3]] []) =
     (Inr [3, 0, 0], ex_world [''cache/06_G.chunk'' \<mapsto> [1, 2, 3]] [])"
proof -
  let ?p = "ex_part 2 3 ''06'' True"
  have f: "loadData_fetch ex_X ex_E ?p (ex_world [''cache/06_G.chunk'' \<mapsto> [1, 2, 3]] []) =
     (Inr [1, 2, 3], ex_world [''cache/06_G.chunk'' \<mapsto> [1, 2, 3]] [])"
    by (rule ex_fetch_hit_lazy)
  have r: "length [1, 2, 3 :: byte] < Offset ?p + Size ?p" "Offset ?p \<le> length [1, 2, 3 :: byte]"
    by (simp_all add: ex_part_def)
  have v: "drop (Offset ?p) [1, 2, 3 :: byte] @
      replicate (Offset ?p + Size ?p - length [1, 2, 3 :: byte]) 0 = [3, 0, 0]"
    by (simp add: ex_part_def numeral_2_eq_2)
  show ?thesis
    using window_beyond_payload [OF f r(1)] f r v
    by auto
qed

theorem window_beyond_payload_counterexample:
  "length [1, 2, 3 :: byte] < Offset (ex_part 5 2 ''06'' True) + Size (ex_part 5 2 ''06'' True) \<and>
   loadData_fetch ex_X ex_E (ex_part 5 2 ''06'' True)
     (ex_world [''cache/06_G.chunk'' \<mapsto> [1, 2, 3]] []) =
     (Inr [1, 2, 3], ex_world [''cache/06_G.chunk'' \<mapsto> [1, 2, 3]] []) \<and>
   loadData ex_X ex_E (ex_part 5 2 ''06'' True)
     (ex_world [''cache/06_G.chunk'' \<mapsto> [1, 2, 3]] []) =
     (Inl (Uncaught RangeError), ex_world [''cache/06_G.chunk'' \<mapsto> [1, 2, 3]] [])"
proof -
  let ?p = "ex_part 5 2 ''06'' True"
  have f: "loadData_fetch ex_X ex_E ?p (ex_world [''cache/06_G.chunk'' \<mapsto> [1, 2, 3]] []) =
     (Inr [1, 2, 3], ex_world [''cache/06_G.chunk'' \<mapsto> [1, 2, 3]] [])"
    by (rule ex_fetch_hit_lazy)
  have s: "loadData_slice ?p [1, 2, 3] = None"
    by (simp add: loadData_slice_beyond ex_part_def)
  have "length [1, 2, 3 :: byte] < Offset ?p + Size ?p"
    by (simp add: ex_part_def)
  then show ?thesis
    using f by (simp add: loadData_def s)
qed

end
